theory Spec2Isabelle
  imports Main "HOL-Library.Word"
begin

section \<open>Data model of the Cloud Functions backend (functions/index.js)\<close>

text \<open>
  Document ids, user ids and push tokens are opaque and only compared, so they are
  \<open>string\<close>. Texts whose length the code inspects are JavaScript strings: sequences of
  UTF-16 code units, which is what \<open>.length\<close> and \<open>.substring\<close> count.
\<close>

type_synonym uid = string
type_synonym doc_id = string
type_synonym jsstring = "16 word list"

definition lit :: "string \<Rightarrow> jsstring" where
  "lit s = map of_char s"

text \<open>Errors a JavaScript \<open>await\<close> or expression can throw in these handlers.\<close>

datatype js_error =
    TypeError
  | NotFound
  | TransientIO
  | PermissionDenied
  | NetworkError
  | SyntaxError

datatype https_code = Unauthenticated | Internal

datatype log_entry = Log string | LogError string

text \<open>
  A user document. A field that may be absent is an option; \<open>wallet_balance\<close> is the
  nested field \<open>wallet.balance\<close>, \<open>notifications\<close> is \<open>settings.notifications\<close>, and
  \<open>profile\<close> holds every field the functions never touch.
\<close>

record user_doc =
  followersCount :: "int option"
  followingCount :: "int option"
  wallet_balance :: "int option"
  rewardClaimed :: "bool option"
  pushToken :: "string option"
  notifications :: "bool option"
  profile :: "(string \<times> string) list"

record transaction_doc =
  t_type :: string
  t_amount :: int
  t_description :: jsstring

record reward_rule =
  followerThreshold :: "int option"
  rewardAmount :: "int option"

record post_doc =
  p_userId :: uid
  p_content :: string

record comment_doc =
  c_userId :: uid
  c_content :: string

record chat_doc =
  participants :: "uid list"
  lastMessage :: string

record message_doc =
  senderId :: uid
  senderName :: "jsstring option"
  msg_text :: "jsstring option"

datatype push_data =
    RewardData int
  | MessageData doc_id uid

record push_message =
  n_to :: string
  n_sound :: string
  n_title :: jsstring
  n_body :: jsstring
  n_data :: push_data

text \<open>
  The world the functions act on: the Firestore collections (subcollections keyed by
  the ids on their path), the Storage bucket, the Authentication user list, the requests
  handed to the push gateway, and the console.
\<close>

record world =
  users :: "(uid \<times> user_doc) list"
  followers :: "(uid \<times> uid) list"
  following :: "(uid \<times> uid) list"
  transactions :: "((uid \<times> doc_id) \<times> transaction_doc) list"
  rewardRule :: "reward_rule option"
  posts :: "(doc_id \<times> post_doc) list"
  comments :: "((doc_id \<times> doc_id) \<times> comment_doc) list"
  chats :: "(doc_id \<times> chat_doc) list"
  messages :: "((doc_id \<times> doc_id) \<times> message_doc) list"
  files :: "string list"
  credentials :: "uid list"
  gateway :: "push_message list"
  console :: "log_entry list"

text \<open>
  What the platform does that the code cannot see: which awaited call of the invocation
  (numbered in program order from 0) rejects with a transient error, what the push
  gateway answers, and the id Firestore generates for an added document.
\<close>

datatype gateway_outcome = NetworkFailure | NonJsonResponse | JsonReceipt bool

record env =
  fail_at :: "nat option"
  push_outcome :: gateway_outcome
  auto_id :: doc_id

definition fails :: "env \<Rightarrow> nat \<Rightarrow> bool" where
  "fails e n = (fail_at e = Some n)"

subsection \<open>Firestore primitives\<close>

definition doc_get :: "('k \<times> 'v) list \<Rightarrow> 'k \<Rightarrow> 'v option" where
  "doc_get c k = map_of c k"

definition doc_delete :: "'k \<Rightarrow> ('k \<times> 'v) list \<Rightarrow> ('k \<times> 'v) list" where
  "doc_delete k c = filter (\<lambda>kv. fst kv \<noteq> k) c"

definition doc_modify :: "'k \<Rightarrow> ('v \<Rightarrow> 'v) \<Rightarrow> ('k \<times> 'v) list \<Rightarrow> ('k \<times> 'v) list" where
  "doc_modify k f c = map (\<lambda>kv. if fst kv = k then (fst kv, f (snd kv)) else kv) c"

text \<open>\<open>update()\<close> rejects with NOT_FOUND when the document does not exist.\<close>

definition doc_update ::
  "'k \<Rightarrow> ('v \<Rightarrow> 'v) \<Rightarrow> ('k \<times> 'v) list \<Rightarrow> js_error + ('k \<times> 'v) list" where
  "doc_update k f c =
     (case map_of c k of
        None \<Rightarrow> Inl NotFound
      | Some _ \<Rightarrow> Inr (doc_modify k f c))"

text \<open>\<open>FieldValue.increment(n)\<close>: an absent field counts as 0.\<close>

definition fv_increment :: "int \<Rightarrow> int option \<Rightarrow> int option" where
  "fv_increment n v = Some ((case v of None \<Rightarrow> 0 | Some x \<Rightarrow> x) + n)"

text \<open>\<open>FieldValue.arrayRemove(x)\<close> removes every occurrence of the element.\<close>

definition fv_arrayRemove :: "'a \<Rightarrow> 'a list \<Rightarrow> 'a list" where
  "fv_arrayRemove x xs = filter (\<lambda>y. y \<noteq> x) xs"

definition log_line :: "string \<Rightarrow> world \<Rightarrow> world" where
  "log_line m w = w\<lparr>console := console w @ [Log m]\<rparr>"

definition log_error :: "string \<Rightarrow> world \<Rightarrow> world" where
  "log_error m w = w\<lparr>console := console w @ [LogError m]\<rparr>"

subsection \<open>JavaScript truthiness and number formatting\<close>

definition truthy_bool :: "bool option \<Rightarrow> bool" where
  "truthy_bool b = (b = Some True)"

definition truthy_string :: "'a list option \<Rightarrow> bool" where
  "truthy_string s = (case s of None \<Rightarrow> False | Some t \<Rightarrow> t \<noteq> [])"

function dec_digits :: "nat \<Rightarrow> nat list" where
  "dec_digits n = (if n < 10 then [n] else dec_digits (n div 10) @ [n mod 10])"
  by pat_completeness auto
termination
  by (relation "measure id") auto

definition number_string :: "int option \<Rightarrow> jsstring" where
  "number_string v =
     (case v of
        None \<Rightarrow> lit ''undefined''
      | Some i \<Rightarrow> (if i < 0 then lit ''-'' else []) @
                  map (\<lambda>d. of_nat (48 + d)) (dec_digits (nat \<bar>i\<bar>)))"

section \<open>sendPushNotification\<close>

text \<open>
  The helper posts the message to the gateway and parses the answer as JSON, all inside
  one \<open>try\<close>; the \<open>catch\<close> logs. \<open>fetch\<close> rejects on a network failure and
  \<open>response.json()\<close> rejects on a body that is not JSON.
\<close>

definition fetch_gateway :: "gateway_outcome \<Rightarrow> js_error + gateway_outcome" where
  "fetch_gateway out = (case out of NetworkFailure \<Rightarrow> Inl NetworkError | _ \<Rightarrow> Inr out)"

definition response_json :: "gateway_outcome \<Rightarrow> js_error + bool" where
  "response_json resp = (case resp of JsonReceipt r \<Rightarrow> Inr r | _ \<Rightarrow> Inl SyntaxError)"

definition sendPushNotification ::
  "gateway_outcome \<Rightarrow> push_message \<Rightarrow> world \<Rightarrow> (js_error + unit) \<times> world" where
  "sendPushNotification out message w =
     (let w1 = w\<lparr>gateway := gateway w @ [message]\<rparr> in
      case fetch_gateway out of
        Inl err \<Rightarrow> (Inr (), log_error ''Error sending push notification:'' w1)
      | Inr response \<Rightarrow>
          (case response_json response of
             Inl err \<Rightarrow> (Inr (), log_error ''Error sending push notification:'' w1)
           | Inr result \<Rightarrow> (Inr (), log_line ''Push notification sent:'' w1)))"

section \<open>sendMessageNotification\<close>

text \<open>Awaited calls: 0 the chat read, 1 the recipient read.\<close>

definition preview :: "jsstring \<Rightarrow> jsstring" where
  "preview t = (if length t > 50 then take 50 t @ lit ''...'' else t)"

definition sendMessageNotification ::
  "env \<Rightarrow> doc_id \<Rightarrow> message_doc \<Rightarrow> world \<Rightarrow> world" where
  "sendMessageNotification e chatId messageData w =
     (let caught = log_error ''Error in sendMessageNotification:'' in
      if fails e 0 then caught w else
      case doc_get (chats w) chatId of
        None \<Rightarrow> w
      | Some chatData \<Rightarrow>
          (case find (\<lambda>i. i \<noteq> senderId messageData) (participants chatData) of
             None \<Rightarrow> w
           | Some recipientId \<Rightarrow>
               if recipientId = [] then w else
               if fails e 1 then caught w else
               (case doc_get (users w) recipientId of
                  None \<Rightarrow> w
                | Some recipientData \<Rightarrow>
                    if \<not> truthy_string (pushToken recipientData)
                       \<or> \<not> truthy_bool (notifications recipientData) then w
                    else
                      (case msg_text messageData of
                         None \<Rightarrow> caught w
                       | Some t \<Rightarrow>
                           (case sendPushNotification (push_outcome e)
                                   \<lparr> n_to = the (pushToken recipientData),
                                     n_sound = ''default'',
                                     n_title = (if truthy_string (senderName messageData)
                                                then the (senderName messageData)
                                                else lit ''New Message''),
                                     n_body = preview t,
                                     n_data = MessageData chatId (senderId messageData) \<rparr> w of
                              (Inl err, w') \<Rightarrow> caught w'
                            | (Inr _, w') \<Rightarrow> w')))))"

section \<open>Batched writes\<close>

datatype doc_ref =
    UserRef uid
  | PostRef doc_id
  | CommentRef doc_id doc_id
  | ChatRef doc_id
  | FollowingRef uid uid
  | FollowerRef uid uid
  | TransactionRef uid doc_id

text \<open>
  The writes the functions put into a batch: \<open>batch.delete(ref)\<close>, and \<open>batch.update\<close> with
  an increment of one of the two counters or with \<open>arrayRemove\<close> on \<open>participants\<close>.
\<close>

datatype write_op =
    BatchDelete doc_ref
  | BatchIncrementFollowers uid int
  | BatchIncrementFollowing uid int
  | BatchArrayRemoveParticipant doc_id uid

definition delete_ref :: "doc_ref \<Rightarrow> world \<Rightarrow> world" where
  "delete_ref r w =
     (case r of
        UserRef u \<Rightarrow> w\<lparr>users := doc_delete u (users w)\<rparr>
      | PostRef p \<Rightarrow> w\<lparr>posts := doc_delete p (posts w)\<rparr>
      | CommentRef p c \<Rightarrow> w\<lparr>comments := doc_delete (p, c) (comments w)\<rparr>
      | ChatRef c \<Rightarrow> w\<lparr>chats := doc_delete c (chats w)\<rparr>
      | FollowingRef u f \<Rightarrow> w\<lparr>following := removeAll (u, f) (following w)\<rparr>
      | FollowerRef u f \<Rightarrow> w\<lparr>followers := removeAll (u, f) (followers w)\<rparr>
      | TransactionRef u t \<Rightarrow> w\<lparr>transactions := doc_delete (u, t) (transactions w)\<rparr>)"

definition apply_write :: "write_op \<Rightarrow> world \<Rightarrow> js_error + world" where
  "apply_write op w =
     (case op of
        BatchDelete r \<Rightarrow> Inr (delete_ref r w)
      | BatchIncrementFollowers u n \<Rightarrow>
          (case doc_update u (\<lambda>d. d\<lparr>followersCount := fv_increment n (followersCount d)\<rparr>)
                  (users w) of
             Inl err \<Rightarrow> Inl err
           | Inr us \<Rightarrow> Inr (w\<lparr>users := us\<rparr>))
      | BatchIncrementFollowing u n \<Rightarrow>
          (case doc_update u (\<lambda>d. d\<lparr>followingCount := fv_increment n (followingCount d)\<rparr>)
                  (users w) of
             Inl err \<Rightarrow> Inl err
           | Inr us \<Rightarrow> Inr (w\<lparr>users := us\<rparr>))
      | BatchArrayRemoveParticipant c u \<Rightarrow>
          (case doc_update c (\<lambda>d. d\<lparr>participants := fv_arrayRemove u (participants d)\<rparr>)
                  (chats w) of
             Inl err \<Rightarrow> Inl err
           | Inr cs \<Rightarrow> Inr (w\<lparr>chats := cs\<rparr>)))"

text \<open>
  \<open>batch.commit()\<close> applies the writes in order and is atomic: when one write is
  rejected the result is the error and no world, so the caller keeps the old one.
\<close>

fun batch_commit :: "write_op list \<Rightarrow> world \<Rightarrow> js_error + world" where
  "batch_commit [] w = Inr w"
| "batch_commit (op # ops) w =
     (case apply_write op w of
        Inl err \<Rightarrow> Inl err
      | Inr w' \<Rightarrow> batch_commit ops w')"

section \<open>updateFollowerCounts\<close>

text \<open>
  The \<open>onWrite\<close> trigger of \<open>users/{userId}/followers/{followerId}\<close>; \<open>before\<close> and
  \<open>after\<close> are \<open>change.before.exists\<close> and \<open>change.after.exists\<close>. Awaited call 0 is
  the commit.
\<close>

definition updateFollowerCounts ::
  "env \<Rightarrow> bool \<Rightarrow> bool \<Rightarrow> uid \<Rightarrow> uid \<Rightarrow> world \<Rightarrow> world" where
  "updateFollowerCounts e before after userId followerId w =
     (let caught = log_error ''Error updating follower counts:'';
          batch =
            (if after \<and> \<not> before then
               [BatchIncrementFollowers userId 1, BatchIncrementFollowing followerId 1]
             else if \<not> after \<and> before then
               [BatchIncrementFollowers userId (- 1), BatchIncrementFollowing followerId (- 1)]
             else [])
      in if fails e 0 then caught w
         else (case batch_commit batch w of
                 Inl err \<Rightarrow> caught w
               | Inr w' \<Rightarrow> w'))"

section \<open>checkFollowerReward\<close>

text \<open>
  The \<open>onCreate\<close> trigger of \<open>users/{userId}/followers/{followerId}\<close>. Awaited calls:
  0 the user read, 1 the settings read, 2 the user update, 3 the transaction add; the
  push helper follows.
\<close>

definition currentFollowers_of :: "user_doc \<Rightarrow> int" where
  "currentFollowers_of userData = (case followersCount userData of None \<Rightarrow> 0 | Some n \<Rightarrow> n)"

definition threshold_of :: "reward_rule option \<Rightarrow> int option" where
  "threshold_of settingsDoc =
     (case settingsDoc of None \<Rightarrow> Some 5000 | Some r \<Rightarrow> followerThreshold r)"

text \<open>\<open>a >= b\<close> on numbers is false when \<open>b\<close> is \<open>undefined\<close>.\<close>

definition js_ge :: "int \<Rightarrow> int option \<Rightarrow> bool" where
  "js_ge a b = (case b of None \<Rightarrow> False | Some t \<Rightarrow> a \<ge> t)"

definition reward_due :: "user_doc \<Rightarrow> int option \<Rightarrow> bool" where
  "reward_due userData threshold =
     (js_ge (currentFollowers_of userData) threshold \<and> \<not> truthy_bool (rewardClaimed userData))"

definition rewardAmount_const :: int where
  "rewardAmount_const = 1000"

definition reward_transaction :: "int option \<Rightarrow> transaction_doc" where
  "reward_transaction threshold =
     \<lparr> t_type = ''reward'',
       t_amount = rewardAmount_const,
       t_description = lit ''Milestone reward for reaching '' @ number_string threshold
                       @ lit '' followers'' \<rparr>"

definition reward_message :: "string \<Rightarrow> int option \<Rightarrow> push_message" where
  "reward_message token threshold =
     \<lparr> n_to = token,
       n_sound = ''default'',
       n_title = lit ''Congratulations! '' @ [0xD83C, 0xDF89],
       n_body = lit ''You've earned '' @ [0x20B9] @ number_string (Some rewardAmount_const)
                @ lit '' for reaching '' @ number_string threshold @ lit '' followers!'',
       n_data = RewardData rewardAmount_const \<rparr>"

definition credit_reward :: "user_doc \<Rightarrow> user_doc" where
  "credit_reward d =
     d\<lparr>wallet_balance := fv_increment rewardAmount_const (wallet_balance d),
       rewardClaimed := Some True\<rparr>"

definition checkFollowerReward :: "env \<Rightarrow> uid \<Rightarrow> world \<Rightarrow> world" where
  "checkFollowerReward e userId w =
     (let caught = log_error ''Error in checkFollowerReward:'' in
      if fails e 0 then caught w else
      case doc_get (users w) userId of
        None \<Rightarrow> log_line ''User not found:'' w
      | Some userData \<Rightarrow>
          if fails e 1 then caught w else
          let threshold = threshold_of (rewardRule w) in
          if reward_due userData threshold then
            (if fails e 2 then caught w else
             case doc_update userId credit_reward (users w) of
               Inl err \<Rightarrow> caught w
             | Inr us \<Rightarrow>
                 let w1 = w\<lparr>users := us\<rparr> in
                 if fails e 3 then caught w1 else
                 let w2 = w1\<lparr>transactions := transactions w1 @
                              [((userId, auto_id e), reward_transaction threshold)]\<rparr> in
                 if truthy_string (pushToken userData) then
                   (case sendPushNotification (push_outcome e)
                           (reward_message (the (pushToken userData)) threshold) w2 of
                      (Inl err, w3) \<Rightarrow> caught w3
                    | (Inr _, w3) \<Rightarrow> log_line ''Reward awarded to user'' w3)
                 else log_line ''Reward awarded to user'' w2)
          else w)"

text \<open>A list of deliveries of the trigger, each run to completion before the next.\<close>

fun run_sequential :: "(env \<times> uid) list \<Rightarrow> world \<Rightarrow> world" where
  "run_sequential [] w = w"
| "run_sequential ((e, u) # rest) w = run_sequential rest (checkFollowerReward e u w)"

subsection \<open>The same handler, one awaited call at a time\<close>

text \<open>
  Between two awaited calls of one invocation the platform may run other invocations.
  The program counter says which call comes next and carries the local variables
  \<open>userData\<close> and \<open>threshold\<close>.
\<close>

datatype reward_pc =
    AtGetUser
  | AtGetSettings user_doc
  | AtUpdate user_doc "int option"
  | AtAddTransaction user_doc "int option"
  | AtPush user_doc "int option"
  | Finished

definition reward_step :: "env \<Rightarrow> uid \<Rightarrow> reward_pc \<Rightarrow> world \<Rightarrow> reward_pc \<times> world" where
  "reward_step e userId pc w =
     (let caught = log_error ''Error in checkFollowerReward:'' in
      case pc of
        AtGetUser \<Rightarrow>
          if fails e 0 then (Finished, caught w) else
          (case doc_get (users w) userId of
             None \<Rightarrow> (Finished, log_line ''User not found:'' w)
           | Some userData \<Rightarrow> (AtGetSettings userData, w))
      | AtGetSettings userData \<Rightarrow>
          if fails e 1 then (Finished, caught w) else
          let threshold = threshold_of (rewardRule w) in
          if reward_due userData threshold then (AtUpdate userData threshold, w)
          else (Finished, w)
      | AtUpdate userData threshold \<Rightarrow>
          if fails e 2 then (Finished, caught w) else
          (case doc_update userId credit_reward (users w) of
             Inl err \<Rightarrow> (Finished, caught w)
           | Inr us \<Rightarrow> (AtAddTransaction userData threshold, w\<lparr>users := us\<rparr>))
      | AtAddTransaction userData threshold \<Rightarrow>
          if fails e 3 then (Finished, caught w) else
          (AtPush userData threshold,
           w\<lparr>transactions := transactions w @
                [((userId, auto_id e), reward_transaction threshold)]\<rparr>)
      | AtPush userData threshold \<Rightarrow>
          if truthy_string (pushToken userData) then
            (case sendPushNotification (push_outcome e)
                    (reward_message (the (pushToken userData)) threshold) w of
               (Inl err, w3) \<Rightarrow> (Finished, caught w3)
             | (Inr _, w3) \<Rightarrow> (Finished, log_line ''Reward awarded to user'' w3))
          else (Finished, log_line ''Reward awarded to user'' w)
      | Finished \<Rightarrow> (Finished, w))"

text \<open>
  A schedule names, step by step, the invocation that performs its next awaited call.
\<close>

fun interleave ::
  "nat list \<Rightarrow> (env \<times> uid \<times> reward_pc) list \<Rightarrow> world
     \<Rightarrow> (env \<times> uid \<times> reward_pc) list \<times> world" where
  "interleave [] invs w = (invs, w)"
| "interleave (i # sched) invs w =
     (if i < length invs then
        (case invs ! i of
           (e, u, pc) \<Rightarrow>
             (case reward_step e u pc w of
                (pc', w') \<Rightarrow> interleave sched (invs[i := (e, u, pc')]) w'))
      else interleave sched invs w)"

text \<open>The documents of the subcollection \<open>users/{u}/transactions\<close>.\<close>

definition user_transactions :: "world \<Rightarrow> uid \<Rightarrow> ((uid \<times> doc_id) \<times> transaction_doc) list" where
  "user_transactions w u = filter (\<lambda>kv. fst (fst kv) = u) (transactions w)"

section \<open>The client's follow button (OtherProfileScreen.js) under the security rules\<close>

text \<open>
  The Firestore rules of the repository: a user document and its \<open>following\<close>
  subcollection are writable by their owner only, the \<open>followers\<close> subcollection by any
  signed-in user.
\<close>

definition rules_user_write :: "uid \<Rightarrow> uid \<Rightarrow> bool" where
  "rules_user_write auth userId = (auth = userId)"

definition rules_following_write :: "uid \<Rightarrow> uid \<Rightarrow> bool" where
  "rules_following_write auth userId = (auth = userId)"

definition rules_followers_write :: "uid \<Rightarrow> uid \<Rightarrow> bool" where
  "rules_followers_write auth userId = True"

definition edge_set :: "uid \<times> uid \<Rightarrow> (uid \<times> uid) list \<Rightarrow> (uid \<times> uid) list" where
  "edge_set x es = (if x \<in> set es then es else es @ [x])"

text \<open>
  \<open>handleFollow\<close> of the signed-in user \<open>me\<close> on the profile of \<open>userId\<close>; the result
  is the new \<open>isFollowing\<close> and the world. Awaited calls 0 and 1 are the two edge writes,
  2 and 3 the two counter updates; a write the rules deny rejects.
\<close>

definition handleFollow ::
  "env \<Rightarrow> uid \<Rightarrow> uid \<Rightarrow> bool \<Rightarrow> bool \<Rightarrow> world \<Rightarrow> bool \<times> world" where
  "handleFollow e me userId isFollowing followLoading w =
     (if followLoading then (isFollowing, w) else
      let caught = (\<lambda>w'. (isFollowing, log_error ''Error updating follow status:'' w'));
          delta = (if isFollowing then - 1 else 1)
      in
      if fails e 0 \<or> \<not> rules_following_write me me then caught w else
      let w1 = w\<lparr>following := (if isFollowing then removeAll (me, userId) (following w)
                                 else edge_set (me, userId) (following w))\<rparr> in
      if fails e 1 \<or> \<not> rules_followers_write me userId then caught w1 else
      let w2 = w1\<lparr>followers := (if isFollowing then removeAll (userId, me) (followers w1)
                                  else edge_set (userId, me) (followers w1))\<rparr> in
      if fails e 2 \<or> \<not> rules_user_write me me then caught w2 else
      case doc_update me (\<lambda>d. d\<lparr>followingCount := fv_increment delta (followingCount d)\<rparr>)
             (users w2) of
        Inl err \<Rightarrow> caught w2
      | Inr us \<Rightarrow>
          let w3 = w2\<lparr>users := us\<rparr> in
          if fails e 3 \<or> \<not> rules_user_write me userId then caught w3 else
          (case doc_update userId
                  (\<lambda>d. d\<lparr>followersCount := fv_increment delta (followersCount d)\<rparr>) (users w3) of
             Inl err \<Rightarrow> caught w3
           | Inr us' \<Rightarrow> (\<not> isFollowing, w3\<lparr>users := us'\<rparr>)))"

text \<open>
  One press of the button followed by the trigger it causes: the platform delivers the
  creation or deletion of \<open>users/{userId}/followers/{me}\<close> to \<open>updateFollowerCounts\<close>
  (once, with environment \<open>e2\<close>).
\<close>

definition follow_with_trigger ::
  "env \<Rightarrow> env \<Rightarrow> uid \<Rightarrow> uid \<Rightarrow> bool \<Rightarrow> world \<Rightarrow> bool \<times> world" where
  "follow_with_trigger e e2 me userId isFollowing w =
     (let before = ((userId, me) \<in> set (followers w)) in
      case handleFollow e me userId isFollowing False w of
        (isFollowing', w1) \<Rightarrow>
          let after = ((userId, me) \<in> set (followers w1)) in
          (isFollowing',
           if before = after then w1
           else updateFollowerCounts e2 before after userId me w1))"

definition followers_edges :: "world \<Rightarrow> uid \<Rightarrow> nat" where
  "followers_edges w u = length (filter (\<lambda>x. fst x = u) (followers w))"

definition following_edges :: "world \<Rightarrow> uid \<Rightarrow> nat" where
  "following_edges w u = length (filter (\<lambda>x. fst x = u) (following w))"

section \<open>deleteUserAccount\<close>

definition starts_with :: "string \<Rightarrow> string \<Rightarrow> bool" where
  "starts_with p s = (take (length p) s = p)"

definition storage_prefix :: "uid \<Rightarrow> string" where
  "storage_prefix userId = ''users/'' @ userId @ ''/''"

text \<open>
  The callable function; \<open>dat\<close> is the request payload and \<open>auth\<close> is \<open>context.auth\<close>
  (its \<open>uid\<close> when present). The result is \<open>Inr True\<close> for \<open>{success: true}\<close> or the code
  of the HttpsError thrown. Awaited calls: 0 posts query, 1 comments query, 2 chats
  query, 3 following read, 4 followers read, 5 transactions read, 6 commit, 7 deleteFiles,
  8 deleteUser.
\<close>

definition purge_batch :: "uid \<Rightarrow> world \<Rightarrow> write_op list" where
  "purge_batch userId w =
     [BatchDelete (UserRef userId)]
     @ map (\<lambda>kv. BatchDelete (PostRef (fst kv)))
         (filter (\<lambda>kv. p_userId (snd kv) = userId) (posts w))
     @ map (\<lambda>kv. BatchDelete (CommentRef (fst (fst kv)) (snd (fst kv))))
         (filter (\<lambda>kv. c_userId (snd kv) = userId) (comments w))
     @ map (\<lambda>kv. if length (participants (snd kv)) = 1
                  then BatchDelete (ChatRef (fst kv))
                  else BatchArrayRemoveParticipant (fst kv) userId)
         (filter (\<lambda>kv. userId \<in> set (participants (snd kv))) (chats w))
     @ map (\<lambda>x. BatchDelete (FollowingRef (fst x) (snd x)))
         (filter (\<lambda>x. fst x = userId) (following w))
     @ map (\<lambda>x. BatchDelete (FollowerRef (fst x) (snd x)))
         (filter (\<lambda>x. fst x = userId) (followers w))
     @ map (\<lambda>kv. BatchDelete (TransactionRef (fst (fst kv)) (snd (fst kv))))
         (filter (\<lambda>kv. fst (fst kv) = userId) (transactions w))"

definition deleteUserAccount ::
  "env \<Rightarrow> 'd \<Rightarrow> uid option \<Rightarrow> world \<Rightarrow> (https_code + bool) \<times> world" where
  "deleteUserAccount e dat auth w =
     (case auth of
        None \<Rightarrow> (Inl Unauthenticated, w)
      | Some userId \<Rightarrow>
          let caught = (\<lambda>w'. (Inl Internal, log_error ''Error deleting user account:'' w')) in
          if fails e 0 \<or> fails e 1 \<or> fails e 2 \<or> fails e 3 \<or> fails e 4 \<or> fails e 5
             \<or> fails e 6
          then caught w else
          (case batch_commit (purge_batch userId w) w of
             Inl err \<Rightarrow> caught w
           | Inr w1 \<Rightarrow>
               if fails e 7 then caught w1 else
               let w2 = w1\<lparr>files := filter (\<lambda>f. \<not> starts_with (storage_prefix userId) f)
                                        (files w1)\<rparr> in
               if fails e 8 \<or> userId \<notin> set (credentials w2) then caught w2 else
               let w3 = w2\<lparr>credentials := removeAll userId (credentials w2)\<rparr> in
               (Inr True, log_line ''User account successfully deleted'' w3)))"

section \<open>Sample worlds\<close>

definition sample_user :: user_doc where
  "sample_user =
     \<lparr> followersCount = Some 0, followingCount = Some 0, wallet_balance = Some 0,
       rewardClaimed = None, pushToken = Some ''ExponentPushToken[abc]'',
       notifications = Some True, profile = [(''username'', ''sample'')] \<rparr>"

definition empty_world :: world where
  "empty_world =
     \<lparr> users = [], followers = [], following = [], transactions = [], rewardRule = None,
       posts = [], comments = [], chats = [], messages = [], files = [], credentials = [],
       gateway = [], console = [] \<rparr>"

definition ok_env :: env where
  "ok_env = \<lparr> fail_at = None, push_outcome = JsonReceipt True, auto_id = ''txn1'' \<rparr>"

definition chat_world :: world where
  "chat_world =
     empty_world\<lparr> users := [(''alice'', sample_user), (''bob'', sample_user)],
                  chats := [(''alice_bob'', \<lparr> participants = [''alice'', ''bob''],
                                             lastMessage = '''' \<rparr>)] \<rparr>"

definition long_message :: message_doc where
  "long_message =
     \<lparr> senderId = ''alice'', senderName = None, msg_text = Some (replicate 120 97) \<rparr>"

definition milestone_world :: world where
  "milestone_world =
     empty_world\<lparr> users := [(''alice'', sample_user),
                            (''bob'', sample_user\<lparr>followersCount := Some 5000\<rparr>)] \<rparr>"

definition almost_world :: world where
  "almost_world =
     empty_world\<lparr> users := [(''alice'', sample_user),
                            (''bob'', sample_user\<lparr>followersCount := Some 4999\<rparr>)] \<rparr>"

definition configured_world :: world where
  "configured_world =
     milestone_world\<lparr> rewardRule :=
        Some \<lparr> followerThreshold = Some 5000, rewardAmount = Some 500 \<rparr> \<rparr>"

definition after_purge_world :: world where
  "after_purge_world =
     empty_world\<lparr> users := [(''alice'', sample_user\<lparr>followingCount := Some 1\<rparr>)] \<rparr>"

definition purge_world :: world where
  "purge_world =
     empty_world\<lparr>
       users := [(''alice'', sample_user), (''bob'', sample_user)],
       followers := [(''alice'', ''bob''), (''bob'', ''alice'')],
       following := [(''alice'', ''bob''), (''bob'', ''alice'')],
       transactions := [((''alice'', ''t1''),
                         \<lparr> t_type = ''reward'', t_amount = 1000, t_description = [] \<rparr>)],
       posts := [(''p1'', \<lparr> p_userId = ''alice'', p_content = ''hello'' \<rparr>),
                 (''p2'', \<lparr> p_userId = ''bob'', p_content = ''world'' \<rparr>)],
       comments := [((''p2'', ''c1''), \<lparr> c_userId = ''alice'', c_content = ''nice'' \<rparr>),
                    ((''p1'', ''c2''), \<lparr> c_userId = ''bob'', c_content = ''thanks'' \<rparr>)],
       chats := [(''alice_bob'', \<lparr> participants = [''alice'', ''bob''], lastMessage = ''hi'' \<rparr>),
                 (''alice_only'', \<lparr> participants = [''alice''], lastMessage = ''memo'' \<rparr>)],
       messages := [((''alice_bob'', ''m1''),
                     \<lparr> senderId = ''alice'', senderName = None, msg_text = Some [104, 105] \<rparr>)],
       files := [''users/alice/avatar.jpg'', ''users/bob/avatar.jpg''],
       credentials := [''alice'', ''bob''] \<rparr>"

definition two_deliveries :: "(env \<times> uid \<times> reward_pc) list" where
  "two_deliveries =
     [(ok_env, ''bob'', AtGetUser), (ok_env\<lparr>auto_id := ''txn2''\<rparr>, ''bob'', AtGetUser)]"

definition claimed_world :: world where
  "claimed_world =
     empty_world\<lparr> users := [(''alice'', sample_user),
                            (''bob'', sample_user\<lparr>followersCount := Some 5001,
                                                  wallet_balance := Some 1000,
                                                  rewardClaimed := Some True\<rparr>)] \<rparr>"

definition two_users_world :: world where
  "two_users_world =
     empty_world\<lparr> users := [(''alice'', sample_user), (''bob'', sample_user)] \<rparr>"

section \<open>Auxiliary notions for the proofs\<close>

text \<open>
  \<open>is_delete\<close> recognises the delete writes of a batch; \<open>leave_chat\<close> is the update
  that \<open>arrayRemove\<close> performs on a chat document.
\<close>

definition is_delete :: "write_op \<Rightarrow> bool" where
  "is_delete op = (case op of BatchDelete _ \<Rightarrow> True | _ \<Rightarrow> False)"

definition leave_chat :: "uid \<Rightarrow> chat_doc \<Rightarrow> chat_doc" where
  "leave_chat u d = d\<lparr>participants := fv_arrayRemove u (participants d)\<rparr>"

text \<open>
  Two relations between the world before and after some deliveries of
  \<open>checkFollowerReward\<close>, seen from one user: nothing of the user changed, or the user
  was credited exactly once.
\<close>

definition unchanged_for :: "uid \<Rightarrow> world \<Rightarrow> world \<Rightarrow> bool" where
  "unchanged_for u w w' =
     (doc_get (users w') u = doc_get (users w) u
      \<and> user_transactions w' u = user_transactions w u)"

definition credited_once :: "uid \<Rightarrow> world \<Rightarrow> world \<Rightarrow> bool" where
  "credited_once u w w' =
     (\<exists>d tx. doc_get (users w) u = Some d \<and> \<not> truthy_bool (rewardClaimed d)
        \<and> doc_get (users w') u = Some (credit_reward d)
        \<and> user_transactions w' u = user_transactions w u @ tx
        \<and> length tx \<le> 1 \<and> list_all (\<lambda>kv. t_type (snd kv) = ''reward'') tx)"

section \<open>Properties of the functions\<close>

lemma doc_get_doc_modify:
  "doc_get (doc_modify k f c) v = (if v = k then map_option f (doc_get c v) else doc_get c v)"
  unfolding doc_get_def doc_modify_def by (induction c) auto

lemma doc_update_Some: "doc_get c k = Some d \<Longrightarrow> doc_update k f c = Inr (doc_modify k f c)"
  by (simp add: doc_update_def doc_get_def)

lemma doc_update_None: "doc_get c k = None \<Longrightarrow> doc_update k f c = Inl NotFound"
  by (simp add: doc_update_def doc_get_def)

lemma sendPushNotification_eq:
  "sendPushNotification out m w =
     (Inr (), w\<lparr>gateway := gateway w @ [m],
               console := console w @ [if out = NetworkFailure \<or> out = NonJsonResponse
                  then LogError ''Error sending push notification:''
                  else Log ''Push notification sent:'']\<rparr>)"
  unfolding sendPushNotification_def Let_def log_error_def log_line_def
     fetch_gateway_def response_json_def
  by (cases out) (simp_all)





text \<open>
  Claim C6. When the recipient of a message is resolved, has a push token and has
  notifications enabled, the notification handed to the gateway has as body the first 50
  code units of the text followed by \<open>...\<close> when the text is longer than 50, and the
  whole text otherwise.
\<close>

theorem message_preview_body:
  assumes "fail_at e = None"
    and "doc_get (chats w) chatId = Some chatData"
    and "find (\<lambda>i. i \<noteq> senderId m) (participants chatData) = Some r"
    and "r \<noteq> []"
    and "doc_get (users w) r = Some recipientData"
    and "truthy_string (pushToken recipientData)"
    and "truthy_bool (notifications recipientData)"
    and "msg_text m = Some t"
  shows "\<exists>msg. gateway (sendMessageNotification e chatId m w) = gateway w @ [msg]
           \<and> n_body msg = (if length t > 50 then take 50 t @ lit ''...'' else t)"
  using assms
  unfolding sendMessageNotification_def Let_def fails_def
  by (simp add: sendPushNotification_eq preview_def log_error_def)

theorem message_preview_body_witness:
  "\<exists>msg. gateway (sendMessageNotification ok_env ''alice_bob'' long_message chat_world)
            = gateway chat_world @ [msg]
         \<and> n_body msg = take 50 (replicate 120 97) @ lit ''...''"
proof -
  have h1: "fail_at ok_env = None" by (simp add: ok_env_def)
  have h2: "doc_get (chats chat_world) ''alice_bob''
              = Some \<lparr> participants = [''alice'', ''bob''], lastMessage = '''' \<rparr>"
    by (simp add: chat_world_def empty_world_def doc_get_def)
  have h3: "find (\<lambda>i. i \<noteq> senderId long_message)
              (participants \<lparr> participants = [''alice'', ''bob''], lastMessage = '''' \<rparr>)
              = Some ''bob''"
    by (simp add: long_message_def)
  have h4: "''bob'' \<noteq> []" by simp
  have h5: "doc_get (users chat_world) ''bob'' = Some sample_user"
    by (simp add: chat_world_def empty_world_def doc_get_def)
  have h6: "truthy_string (pushToken sample_user)"
    by (simp add: sample_user_def truthy_string_def)
  have h7: "truthy_bool (notifications sample_user)"
    by (simp add: sample_user_def truthy_bool_def)
  have h8: "msg_text long_message = Some (replicate 120 97)"
    by (simp add: long_message_def)
  show ?thesis
    using message_preview_body [OF h1 h2 h3 h4 h5 h6 h7 h8] by simp
qed

lemma checkFollowerReward_push_independent:
  "(checkFollowerReward (e\<lparr>push_outcome := out\<rparr>) u w)\<lparr>console := []\<rparr>
     = (checkFollowerReward (e\<lparr>push_outcome := out'\<rparr>) u w)\<lparr>console := []\<rparr>"
  unfolding checkFollowerReward_def Let_def fails_def
  by (simp add: sendPushNotification_eq log_error_def log_line_def split: option.splits sum.splits)

text \<open>
  Claim C10. \<open>sendPushNotification\<close> returns normally for every message and every answer
  of the gateway: it records the request, writes one console line (an error line when the
  request or the JSON parsing failed) and changes nothing else; and what
  \<open>checkFollowerReward\<close> does to the world, the console apart, does not depend on the
  gateway's answer.
\<close>

theorem sendPushNotification_never_propagates:
  "fst (sendPushNotification out m w) = Inr ()
   \<and> (snd (sendPushNotification out m w))\<lparr>gateway := gateway w, console := console w\<rparr> = w
   \<and> gateway (snd (sendPushNotification out m w)) = gateway w @ [m]
   \<and> console (snd (sendPushNotification out m w)) =
       console w @ [if out = NetworkFailure \<or> out = NonJsonResponse
                    then LogError ''Error sending push notification:''
                    else Log ''Push notification sent:'']
   \<and> (checkFollowerReward (e\<lparr>push_outcome := out\<rparr>) u v)\<lparr>console := []\<rparr>
       = (checkFollowerReward (e\<lparr>push_outcome := out'\<rparr>) u v)\<lparr>console := []\<rparr>"
  using checkFollowerReward_push_independent [where e = e and out = out and u = u and w = v
      and out' = out']
  by (simp add: sendPushNotification_eq)

theorem sendPushNotification_never_propagates_witness:
  "fst (sendPushNotification NetworkFailure (reward_message ''token'' None) empty_world) = Inr ()
   \<and> console (snd (sendPushNotification NetworkFailure (reward_message ''token'' None)
                    empty_world))
       = [LogError ''Error sending push notification:'']
   \<and> users (checkFollowerReward (ok_env\<lparr>push_outcome := NetworkFailure\<rparr>) ''bob''
             milestone_world)
       = users (checkFollowerReward (ok_env\<lparr>push_outcome := JsonReceipt True\<rparr>) ''bob''
             milestone_world)"
proof -
  note t = sendPushNotification_never_propagates
             [where out = NetworkFailure and m = "reward_message ''token'' None"
                and w = empty_world and e = ok_env and u = "''bob''"
                and v = milestone_world and out' = "JsonReceipt True"]
  from t have a: "fst (sendPushNotification NetworkFailure (reward_message ''token'' None)
                    empty_world) = Inr ()"
    by blast
  from t have b: "console (snd (sendPushNotification NetworkFailure
                    (reward_message ''token'' None) empty_world))
       = [LogError ''Error sending push notification:'']"
    by (simp add: empty_world_def)
  from t have "users ((checkFollowerReward (ok_env\<lparr>push_outcome := NetworkFailure\<rparr>) ''bob''
             milestone_world)\<lparr>console := []\<rparr>)
       = users ((checkFollowerReward (ok_env\<lparr>push_outcome := JsonReceipt True\<rparr>) ''bob''
             milestone_world)\<lparr>console := []\<rparr>)"
    by simp
  then have c: "users (checkFollowerReward (ok_env\<lparr>push_outcome := NetworkFailure\<rparr>) ''bob''
             milestone_world)
       = users (checkFollowerReward (ok_env\<lparr>push_outcome := JsonReceipt True\<rparr>) ''bob''
             milestone_world)"
    by simp
  from a b c show ?thesis by blast
qed

lemma checkFollowerReward_issue:
  assumes "fail_at e = None"
    and "doc_get (users w) u = Some d"
    and "reward_due d (threshold_of (rewardRule w))"
  shows "checkFollowerReward e u w =
     (let th = threshold_of (rewardRule w) in
      w\<lparr>users := doc_modify u credit_reward (users w),
        transactions := transactions w @ [((u, auto_id e), reward_transaction th)],
        gateway := gateway w @ (if truthy_string (pushToken d)
                                then [reward_message (the (pushToken d)) th] else []),
        console := console w @ (if truthy_string (pushToken d)
                                then [if push_outcome e = NetworkFailure
                                         \<or> push_outcome e = NonJsonResponse
                                      then LogError ''Error sending push notification:''
                                      else Log ''Push notification sent:''] else [])
                             @ [Log ''Reward awarded to user'']\<rparr>)"
  using assms
  unfolding checkFollowerReward_def Let_def fails_def
  by (simp add: sendPushNotification_eq doc_update_def doc_get_def log_line_def)

text \<open>
  Claim C2, as amended. When no awaited call rejects and the handler reads an existing
  user whose \<open>followersCount\<close> is at least the threshold and whose \<open>rewardClaimed\<close> is
  not set, it adds 1000 to \<open>wallet.balance\<close> and sets \<open>rewardClaimed\<close> (one document
  update), then appends exactly one transaction of type reward and amount 1000 (a second
  write), and hands exactly one message to the push gateway if the user has a non-empty
  push token and none otherwise.
\<close>

theorem reward_issued_when_due:
  assumes "fail_at e = None"
    and "doc_get (users w) u = Some d"
    and "threshold_of (rewardRule w) = Some th"
    and "th \<le> currentFollowers_of d"
    and "\<not> truthy_bool (rewardClaimed d)"
  shows "doc_get (users (checkFollowerReward e u w)) u =
           Some (d\<lparr>wallet_balance :=
                     Some ((case wallet_balance d of None \<Rightarrow> 0 | Some b \<Rightarrow> b) + 1000),
                   rewardClaimed := Some True\<rparr>)
       \<and> (\<exists>txn. transactions (checkFollowerReward e u w) =
                   transactions w @ [((u, auto_id e), txn)]
                 \<and> t_type txn = ''reward'' \<and> t_amount txn = 1000)
       \<and> gateway (checkFollowerReward e u w) =
           gateway w @ (case pushToken d of
                          None \<Rightarrow> []
                        | Some token \<Rightarrow>
                            if token = [] then [] else [reward_message token (Some th)])"
proof -
  have due: "reward_due d (threshold_of (rewardRule w))"
    using assms(3,4,5) by (simp add: reward_due_def js_ge_def)
  note eq = checkFollowerReward_issue [OF assms(1) assms(2) due]
  have a: "doc_get (users (checkFollowerReward e u w)) u =
           Some (d\<lparr>wallet_balance :=
                     Some ((case wallet_balance d of None \<Rightarrow> 0 | Some b \<Rightarrow> b) + 1000),
                   rewardClaimed := Some True\<rparr>)"
    using assms(2)
    by (simp add: eq Let_def doc_get_doc_modify credit_reward_def fv_increment_def
        rewardAmount_const_def)
  have b: "\<exists>txn. transactions (checkFollowerReward e u w) =
                   transactions w @ [((u, auto_id e), txn)]
                 \<and> t_type txn = ''reward'' \<and> t_amount txn = 1000"
    by (simp add: eq Let_def reward_transaction_def rewardAmount_const_def)
  have c: "gateway (checkFollowerReward e u w) =
           gateway w @ (case pushToken d of
                          None \<Rightarrow> []
                        | Some token \<Rightarrow>
                            if token = [] then [] else [reward_message token (Some th)])"
    using assms(3)
    by (simp add: eq Let_def truthy_string_def split: option.splits)
  from a b c show ?thesis by blast
qed

theorem reward_issued_when_due_witness:
  "doc_get (users (checkFollowerReward ok_env ''bob''
       (updateFollowerCounts ok_env False True ''bob'' ''alice'' almost_world))) ''bob'' =
     Some (sample_user\<lparr>followersCount := Some 5000, wallet_balance := Some 1000,
                       rewardClaimed := Some True\<rparr>)"
proof -
  let ?w = "updateFollowerCounts ok_env False True ''bob'' ''alice'' almost_world"
  let ?d = "sample_user\<lparr>followersCount := Some 5000,
                          followingCount := followingCount sample_user\<rparr>"
  have w: "?w = almost_world\<lparr> users :=
                  [(''alice'', sample_user\<lparr>followingCount := Some 1\<rparr>),
                   (''bob'', sample_user\<lparr>followersCount := Some 5000\<rparr>)] \<rparr>"
    by (simp add: updateFollowerCounts_def Let_def fails_def ok_env_def apply_write_def
        doc_update_def doc_modify_def almost_world_def empty_world_def fv_increment_def sample_user_def)
  have h1: "fail_at ok_env = None" by (simp add: ok_env_def)
  have h2: "doc_get (users ?w) ''bob'' = Some (sample_user\<lparr>followersCount := Some 5000\<rparr>)"
    unfolding w by (simp add: doc_get_def)
  have h3: "threshold_of (rewardRule ?w) = Some 5000"
    unfolding w by (simp add: almost_world_def empty_world_def threshold_of_def)
  have h4: "5000 \<le> currentFollowers_of (sample_user\<lparr>followersCount := Some 5000\<rparr>)"
    by (simp add: currentFollowers_of_def)
  have h5: "\<not> truthy_bool (rewardClaimed (sample_user\<lparr>followersCount := Some 5000\<rparr>))"
    by (simp add: truthy_bool_def sample_user_def)
  show ?thesis
    using reward_issued_when_due [OF h1 h2 h3 h4 h5]
    by (simp add: sample_user_def)
qed

text \<open>
  Claim C2 as stated fails. When the transaction write rejects, the balance is credited
  and the flag set although no transaction exists: the effects are not one atomic step.
  And when the trigger is delivered before the counter of the user at 4999 followers is
  incremented, the user reaches 5000 without a reward.
\<close>

theorem reward_not_atomic_counterexample:
  "map_option wallet_balance
     (doc_get (users (checkFollowerReward (ok_env\<lparr>fail_at := Some 3\<rparr>) ''bob'' milestone_world))
        ''bob'') = Some (Some 1000)
   \<and> map_option rewardClaimed
     (doc_get (users (checkFollowerReward (ok_env\<lparr>fail_at := Some 3\<rparr>) ''bob'' milestone_world))
        ''bob'') = Some (Some True)
   \<and> transactions (checkFollowerReward (ok_env\<lparr>fail_at := Some 3\<rparr>) ''bob'' milestone_world)
       = []
   \<and> map_option followersCount
     (doc_get (users (updateFollowerCounts ok_env False True ''bob'' ''alice''
        (checkFollowerReward ok_env ''bob'' almost_world))) ''bob'') = Some (Some 5000)
   \<and> map_option wallet_balance
     (doc_get (users (updateFollowerCounts ok_env False True ''bob'' ''alice''
        (checkFollowerReward ok_env ''bob'' almost_world))) ''bob'') = Some (Some 0)"
proof -
  have a: "checkFollowerReward (ok_env\<lparr>fail_at := Some 3\<rparr>) ''bob'' milestone_world =
     milestone_world\<lparr> users := [(''alice'', sample_user),
         (''bob'', sample_user\<lparr>followersCount := Some 5000, wallet_balance := Some 1000,
                               rewardClaimed := Some True\<rparr>)],
       console := [LogError ''Error in checkFollowerReward:''] \<rparr>"
    by (simp add: checkFollowerReward_def Let_def fails_def ok_env_def milestone_world_def
        empty_world_def doc_get_def doc_update_def doc_modify_def threshold_of_def reward_due_def js_ge_def
        currentFollowers_of_def truthy_bool_def sample_user_def credit_reward_def
        fv_increment_def rewardAmount_const_def log_error_def)
  have b: "checkFollowerReward ok_env ''bob'' almost_world = almost_world"
    by (simp add: checkFollowerReward_def Let_def fails_def ok_env_def almost_world_def
        empty_world_def doc_get_def threshold_of_def reward_due_def js_ge_def
        currentFollowers_of_def sample_user_def)
  have c: "updateFollowerCounts ok_env False True ''bob'' ''alice'' almost_world =
     almost_world\<lparr> users :=
                  [(''alice'', sample_user\<lparr>followingCount := Some 1\<rparr>),
                   (''bob'', sample_user\<lparr>followersCount := Some 5000\<rparr>)] \<rparr>"
    by (simp add: updateFollowerCounts_def Let_def fails_def ok_env_def apply_write_def
        doc_update_def doc_modify_def almost_world_def empty_world_def fv_increment_def sample_user_def)
  show ?thesis
    unfolding a b c
    by (simp add: doc_get_def milestone_world_def empty_world_def sample_user_def)
qed

lemma counter_batch:
  assumes "doc_get (users w) userId = Some du" and "doc_get (users w) followerId = Some df"
  shows "\<exists>us. batch_commit [BatchIncrementFollowers userId n,
                             BatchIncrementFollowing followerId n] w = Inr (w\<lparr>users := us\<rparr>)
     \<and> (\<forall>v. doc_get us v =
           map_option (\<lambda>d. d\<lparr>followersCount :=
                               (if v = userId
                                then Some ((case followersCount d of None \<Rightarrow> 0 | Some x \<Rightarrow> x) + n)
                                else followersCount d),
                             followingCount :=
                               (if v = followerId
                                then Some ((case followingCount d of None \<Rightarrow> 0 | Some x \<Rightarrow> x) + n)
                                else followingCount d)\<rparr>)
             (doc_get (users w) v))"
proof -
  let ?f = "\<lambda>d. d\<lparr>followersCount := fv_increment n (followersCount d)\<rparr>"
  let ?g = "\<lambda>d. d\<lparr>followingCount := fv_increment n (followingCount d)\<rparr>"
  let ?us1 = "doc_modify userId ?f (users w)"
  let ?us2 = "doc_modify followerId ?g ?us1"
  have s1: "apply_write (BatchIncrementFollowers userId n) w = Inr (w\<lparr>users := ?us1\<rparr>)"
    using doc_update_Some [OF assms(1), of ?f] by (simp add: apply_write_def)
  have "doc_get ?us1 followerId \<noteq> None"
    using assms(2) by (simp add: doc_get_doc_modify assms(1))
  then obtain df' where df': "doc_get (users (w\<lparr>users := ?us1\<rparr>)) followerId = Some df'"
    by auto
  have s2: "apply_write (BatchIncrementFollowing followerId n) (w\<lparr>users := ?us1\<rparr>)
              = Inr (w\<lparr>users := ?us2\<rparr>)"
    using doc_update_Some [OF df', of ?g] by (simp add: apply_write_def)
  have c: "batch_commit [BatchIncrementFollowers userId n,
                         BatchIncrementFollowing followerId n] w = Inr (w\<lparr>users := ?us2\<rparr>)"
    by (simp add: s1 s2)
  have g: "\<forall>v. doc_get ?us2 v =
           map_option (\<lambda>d. d\<lparr>followersCount :=
                               (if v = userId
                                then Some ((case followersCount d of None \<Rightarrow> 0 | Some x \<Rightarrow> x) + n)
                                else followersCount d),
                             followingCount :=
                               (if v = followerId
                                then Some ((case followingCount d of None \<Rightarrow> 0 | Some x \<Rightarrow> x) + n)
                                else followingCount d)\<rparr>)
             (doc_get (users w) v)"
    by (simp add: doc_get_doc_modify fv_increment_def option.map_comp comp_def)
       (auto simp: option.map_ident)
  from c g show ?thesis by blast
qed

text \<open>
  Claim C3, as amended. When both user documents exist and the commit does not reject,
  a creation event adds exactly 1 to \<open>followersCount\<close> of \<open>userId\<close> and to
  \<open>followingCount\<close> of \<open>followerId\<close>, a deletion event subtracts exactly 1 from both,
  in one batch; every other field, every other user document and every other collection
  is left as it was.
\<close>

theorem updateFollowerCounts_both_counters:
  assumes "fail_at e \<noteq> Some 0"
    and "doc_get (users w) userId = Some du"
    and "doc_get (users w) followerId = Some df"
    and "before \<noteq> after"
  shows "\<exists>us. updateFollowerCounts e before after userId followerId w = w\<lparr>users := us\<rparr>
     \<and> (\<forall>v. doc_get us v =
           map_option (\<lambda>d. d\<lparr>followersCount :=
                               (if v = userId
                                then Some ((case followersCount d of None \<Rightarrow> 0 | Some x \<Rightarrow> x)
                                           + (if after then 1 else - 1))
                                else followersCount d),
                             followingCount :=
                               (if v = followerId
                                then Some ((case followingCount d of None \<Rightarrow> 0 | Some x \<Rightarrow> x)
                                           + (if after then 1 else - 1))
                                else followingCount d)\<rparr>)
             (doc_get (users w) v))"
proof (cases after)
  case True
  with assms(4) have b: "\<not> before" by simp
  from counter_batch [OF assms(2) assms(3), of 1] obtain us where
    us: "batch_commit [BatchIncrementFollowers userId 1,
                       BatchIncrementFollowing followerId 1] w = Inr (w\<lparr>users := us\<rparr>)"
    and g: "\<forall>v. doc_get us v =
           map_option (\<lambda>d. d\<lparr>followersCount :=
                               (if v = userId
                                then Some ((case followersCount d of None \<Rightarrow> 0 | Some x \<Rightarrow> x) + 1)
                                else followersCount d),
                             followingCount :=
                               (if v = followerId
                                then Some ((case followingCount d of None \<Rightarrow> 0 | Some x \<Rightarrow> x) + 1)
                                else followingCount d)\<rparr>)
             (doc_get (users w) v)"
    by blast
  have "updateFollowerCounts e before after userId followerId w = w\<lparr>users := us\<rparr>"
    using True b assms(1) us by (simp add: updateFollowerCounts_def fails_def)
  with g True show ?thesis by auto
next
  case False
  with assms(4) have b: "before" by simp
  from counter_batch [OF assms(2) assms(3), of "- 1"] obtain us where
    us: "batch_commit [BatchIncrementFollowers userId (- 1),
                       BatchIncrementFollowing followerId (- 1)] w = Inr (w\<lparr>users := us\<rparr>)"
    and g: "\<forall>v. doc_get us v =
           map_option (\<lambda>d. d\<lparr>followersCount :=
                               (if v = userId
                                then Some ((case followersCount d of None \<Rightarrow> 0 | Some x \<Rightarrow> x) + - 1)
                                else followersCount d),
                             followingCount :=
                               (if v = followerId
                                then Some ((case followingCount d of None \<Rightarrow> 0 | Some x \<Rightarrow> x) + - 1)
                                else followingCount d)\<rparr>)
             (doc_get (users w) v)"
    by blast
  have "updateFollowerCounts e before after userId followerId w = w\<lparr>users := us\<rparr>"
    using False b assms(1) us by (simp add: updateFollowerCounts_def fails_def)
  with g False show ?thesis by auto
qed

lemma updateFollowerCounts_dropped:
  assumes "before \<noteq> after"
    and "fail_at e = Some 0 \<or> doc_get (users w) userId = None
         \<or> doc_get (users w) followerId = None"
  shows "updateFollowerCounts e before after userId followerId w =
           log_error ''Error updating follower counts:'' w"
proof (cases "fail_at e = Some 0")
  case True
  then show ?thesis by (simp add: updateFollowerCounts_def fails_def)
next
  case nf: False
  show ?thesis
  proof (cases "doc_get (users w) userId")
    case None
    then show ?thesis
      using assms(1) nf
      by (auto simp: updateFollowerCounts_def fails_def apply_write_def doc_update_None)
  next
    case (Some du)
    with assms(2) nf have fn: "doc_get (users w) followerId = None" by simp
    let ?f = "\<lambda>n d. d\<lparr>followersCount := fv_increment n (followersCount d)\<rparr>"
    have "\<And>n. doc_get (doc_modify userId (?f n) (users w)) followerId = None"
      using fn by (auto simp: doc_get_doc_modify)
    then have "\<And>n. batch_commit [BatchIncrementFollowers userId n,
                       BatchIncrementFollowing followerId n] w = Inl NotFound"
      using doc_update_Some [OF Some]
      by (simp add: apply_write_def doc_update_None)
    then show ?thesis
      using assms(1) nf by (auto simp: updateFollowerCounts_def fails_def)
  qed
qed

text \<open>
  Claim C3 as stated fails. After bob's account was purged, the deletion event of the
  edge \<open>followers/bob/alice\<close> finds no document for bob, the batch is rejected as a
  whole, and alice's \<open>followingCount\<close> stays at 1.
\<close>

theorem updateFollowerCounts_missing_doc_counterexample:
  "doc_get (users after_purge_world) ''alice'' = Some (sample_user\<lparr>followingCount := Some 1\<rparr>)
   \<and> map_option followingCount
     (doc_get (users (updateFollowerCounts ok_env True False ''bob'' ''alice'' after_purge_world))
        ''alice'') = Some (Some 1)"
  by (simp add: updateFollowerCounts_def Let_def fails_def ok_env_def apply_write_def
        doc_update_def doc_modify_def after_purge_world_def empty_world_def doc_get_def
        sample_user_def log_error_def)

theorem updateFollowerCounts_both_counters_witness:
  "\<exists>us. updateFollowerCounts ok_env False True ''bob'' ''alice'' almost_world
           = almost_world\<lparr>users := us\<rparr>
      \<and> map_option followersCount (doc_get us ''bob'') = Some (Some 5000)
      \<and> map_option followingCount (doc_get us ''alice'') = Some (Some 1)
      \<and> map_option followingCount (doc_get us ''bob'') = Some (Some 0)"
proof -
  have h1: "fail_at ok_env \<noteq> Some 0" by (simp add: ok_env_def)
  have h2: "doc_get (users almost_world) ''bob'' = Some (sample_user\<lparr>followersCount := Some 4999\<rparr>)"
    by (simp add: almost_world_def empty_world_def doc_get_def)
  have h3: "doc_get (users almost_world) ''alice'' = Some sample_user"
    by (simp add: almost_world_def empty_world_def doc_get_def)
  have h4: "False \<noteq> True" by simp
  from updateFollowerCounts_both_counters [OF h1 h2 h3 h4] obtain us where
    a: "updateFollowerCounts ok_env False True ''bob'' ''alice'' almost_world
           = almost_world\<lparr>users := us\<rparr>"
    and g: "\<forall>v. doc_get us v =
           map_option (\<lambda>d. d\<lparr>followersCount :=
                               (if v = ''bob''
                                then Some ((case followersCount d of None \<Rightarrow> 0 | Some x \<Rightarrow> x)
                                           + (if True then 1 else - 1))
                                else followersCount d),
                             followingCount :=
                               (if v = ''alice''
                                then Some ((case followingCount d of None \<Rightarrow> 0 | Some x \<Rightarrow> x)
                                           + (if True then 1 else - 1))
                                else followingCount d)\<rparr>)
             (doc_get (users almost_world) v)"
    by blast
  have b: "map_option followersCount (doc_get us ''bob'') = Some (Some 5000)"
    using g [rule_format, of "''bob''"] by (simp add: h2 sample_user_def)
  have c: "map_option followingCount (doc_get us ''alice'') = Some (Some 1)"
    using g [rule_format, of "''alice''"] by (simp add: h3 sample_user_def)
  have d: "map_option followingCount (doc_get us ''bob'') = Some (Some 0)"
    using g [rule_format, of "''bob''"] by (simp add: h2 sample_user_def)
  from a b c d show ?thesis by blast
qed

lemma removeAll_filter: "removeAll x xs = filter (\<lambda>y. y \<noteq> x) xs"
  by (induction xs) auto

lemma apply_write_fixed:
  "apply_write op w = Inr w' \<Longrightarrow>
     messages w' = messages w \<and> files w' = files w \<and> credentials w' = credentials w
     \<and> gateway w' = gateway w \<and> console w' = console w \<and> rewardRule w' = rewardRule w"
  by (cases op) (auto simp: apply_write_def delete_ref_def split: doc_ref.splits sum.splits)

lemma batch_commit_fixed:
  "batch_commit ops w = Inr w' \<Longrightarrow>
     messages w' = messages w \<and> files w' = files w \<and> credentials w' = credentials w
     \<and> gateway w' = gateway w \<and> console w' = console w \<and> rewardRule w' = rewardRule w"
proof (induction ops arbitrary: w)
  case Nil
  then show ?case by simp
next
  case (Cons op ops)
  then obtain w1 where a: "apply_write op w = Inr w1" and b: "batch_commit ops w1 = Inr w'"
    by (auto split: sum.splits)
  from apply_write_fixed [OF a] Cons.IH [OF b] show ?case by simp
qed

lemma apply_write_posts:
  "apply_write op w = Inr w' \<Longrightarrow>
     posts w' = filter (\<lambda>kv. BatchDelete (PostRef (fst kv)) \<noteq> op) (posts w)"
  by (cases op)
     (auto simp: apply_write_def delete_ref_def doc_delete_def
           split: doc_ref.splits sum.splits intro: filter_cong)

lemma batch_commit_posts:
  "batch_commit ops w = Inr w' \<Longrightarrow>
     posts w' = filter (\<lambda>kv. BatchDelete (PostRef (fst kv)) \<notin> set ops) (posts w)"
proof (induction ops arbitrary: w)
  case Nil
  then show ?case by simp
next
  case (Cons op ops)
  then obtain w1 where a: "apply_write op w = Inr w1" and b: "batch_commit ops w1 = Inr w'"
    by (auto split: sum.splits)
  show ?case
    unfolding Cons.IH [OF b] apply_write_posts [OF a]
    by (auto intro: filter_cong)
qed

lemma apply_write_comments:
  "apply_write op w = Inr w' \<Longrightarrow>
     comments w' = filter (\<lambda>kv. BatchDelete (CommentRef (fst (fst kv)) (snd (fst kv))) \<noteq> op) (comments w)"
  by (cases op)
     (auto simp: apply_write_def delete_ref_def doc_delete_def removeAll_filter prod_eq_iff
           split: doc_ref.splits sum.splits intro!: filter_cong)

lemma batch_commit_comments:
  "batch_commit ops w = Inr w' \<Longrightarrow>
     comments w' = filter (\<lambda>kv. BatchDelete (CommentRef (fst (fst kv)) (snd (fst kv))) \<notin> set ops) (comments w)"
proof (induction ops arbitrary: w)
  case Nil
  then show ?case by simp
next
  case (Cons op ops)
  then obtain w1 where a: "apply_write op w = Inr w1" and b: "batch_commit ops w1 = Inr w'"
    by (auto split: sum.splits)
  show ?case
    unfolding Cons.IH [OF b] apply_write_comments [OF a]
    by (auto intro: filter_cong)
qed

lemma apply_write_transactions:
  "apply_write op w = Inr w' \<Longrightarrow>
     transactions w' = filter (\<lambda>kv. BatchDelete (TransactionRef (fst (fst kv)) (snd (fst kv))) \<noteq> op) (transactions w)"
  by (cases op)
     (auto simp: apply_write_def delete_ref_def doc_delete_def removeAll_filter prod_eq_iff
           split: doc_ref.splits sum.splits intro!: filter_cong)

lemma batch_commit_transactions:
  "batch_commit ops w = Inr w' \<Longrightarrow>
     transactions w' = filter (\<lambda>kv. BatchDelete (TransactionRef (fst (fst kv)) (snd (fst kv))) \<notin> set ops) (transactions w)"
proof (induction ops arbitrary: w)
  case Nil
  then show ?case by simp
next
  case (Cons op ops)
  then obtain w1 where a: "apply_write op w = Inr w1" and b: "batch_commit ops w1 = Inr w'"
    by (auto split: sum.splits)
  show ?case
    unfolding Cons.IH [OF b] apply_write_transactions [OF a]
    by (auto intro: filter_cong)
qed

lemma apply_write_following:
  "apply_write op w = Inr w' \<Longrightarrow>
     following w' = filter (\<lambda>kv. BatchDelete (FollowingRef (fst kv) (snd kv)) \<noteq> op) (following w)"
  by (cases op)
     (auto simp: apply_write_def delete_ref_def doc_delete_def removeAll_filter prod_eq_iff
           split: doc_ref.splits sum.splits intro!: filter_cong)

lemma batch_commit_following:
  "batch_commit ops w = Inr w' \<Longrightarrow>
     following w' = filter (\<lambda>kv. BatchDelete (FollowingRef (fst kv) (snd kv)) \<notin> set ops) (following w)"
proof (induction ops arbitrary: w)
  case Nil
  then show ?case by simp
next
  case (Cons op ops)
  then obtain w1 where a: "apply_write op w = Inr w1" and b: "batch_commit ops w1 = Inr w'"
    by (auto split: sum.splits)
  show ?case
    unfolding Cons.IH [OF b] apply_write_following [OF a]
    by (auto intro: filter_cong)
qed

lemma apply_write_followers:
  "apply_write op w = Inr w' \<Longrightarrow>
     followers w' = filter (\<lambda>kv. BatchDelete (FollowerRef (fst kv) (snd kv)) \<noteq> op) (followers w)"
  by (cases op)
     (auto simp: apply_write_def delete_ref_def doc_delete_def removeAll_filter prod_eq_iff
           split: doc_ref.splits sum.splits intro!: filter_cong)

lemma batch_commit_followers:
  "batch_commit ops w = Inr w' \<Longrightarrow>
     followers w' = filter (\<lambda>kv. BatchDelete (FollowerRef (fst kv) (snd kv)) \<notin> set ops) (followers w)"
proof (induction ops arbitrary: w)
  case Nil
  then show ?case by simp
next
  case (Cons op ops)
  then obtain w1 where a: "apply_write op w = Inr w1" and b: "batch_commit ops w1 = Inr w'"
    by (auto split: sum.splits)
  show ?case
    unfolding Cons.IH [OF b] apply_write_followers [OF a]
    by (auto intro: filter_cong)
qed

lemma apply_write_users:
  "apply_write op w = Inr w' \<Longrightarrow> is_delete op \<Longrightarrow>
     users w' = filter (\<lambda>kv. BatchDelete (UserRef (fst kv)) \<noteq> op) (users w)"
  by (cases op)
     (auto simp: apply_write_def delete_ref_def doc_delete_def is_delete_def
           split: doc_ref.splits sum.splits intro: filter_cong)

lemma apply_write_users_chat:
  "apply_write (BatchArrayRemoveParticipant c u) w = Inr w' \<Longrightarrow> users w' = users w"
  by (auto simp: apply_write_def split: sum.splits)

lemma batch_commit_users:
  "batch_commit ops w = Inr w' \<Longrightarrow>
   \<forall>op \<in> set ops. is_delete op \<or> (\<exists>c u. op = BatchArrayRemoveParticipant c u) \<Longrightarrow>
     users w' = filter (\<lambda>kv. BatchDelete (UserRef (fst kv)) \<notin> set ops) (users w)"
proof (induction ops arbitrary: w)
  case Nil
  then show ?case by simp
next
  case (Cons op ops)
  then obtain w1 where a: "apply_write op w = Inr w1" and b: "batch_commit ops w1 = Inr w'"
    by (auto split: sum.splits)
  from Cons.prems(2) have rest: "\<forall>op \<in> set ops. is_delete op \<or> (\<exists>c u. op = BatchArrayRemoveParticipant c u)"
    by simp
  from Cons.prems(2) consider "is_delete op" | c u where "op = BatchArrayRemoveParticipant c u"
    by auto
  then show ?case
  proof cases
    case 1
    show ?thesis
      unfolding Cons.IH [OF b rest] apply_write_users [OF a 1]
      by (auto intro: filter_cong)
  next
    case 2
    with a have "users w1 = users w" by (simp add: apply_write_users_chat)
    with 2 show ?thesis
      unfolding Cons.IH [OF b rest]
      by (auto intro: filter_cong)
  qed
qed

lemma leave_chat_idem: "leave_chat u (leave_chat u d) = leave_chat u d"
  by (simp add: leave_chat_def fv_arrayRemove_def)

lemma apply_write_chats_delete:
  "apply_write (BatchDelete r) w = Inr w' \<Longrightarrow>
     chats w' = filter (\<lambda>kv. ChatRef (fst kv) \<noteq> r) (chats w)"
  by (cases r) (auto simp: apply_write_def delete_ref_def doc_delete_def intro: filter_cong)

lemma apply_write_chats_remove:
  "apply_write (BatchArrayRemoveParticipant c u) w = Inr w' \<Longrightarrow>
     chats w' = doc_modify c (leave_chat u) (chats w)"
  by (auto simp: apply_write_def doc_update_def leave_chat_def [abs_def]
           split: sum.splits option.splits)

lemma map_filter_map:
  assumes "\<And>x. P (h x) = P' x" and "\<And>x. P' x \<Longrightarrow> g (h x) = g' x"
  shows "map g (filter P (map h xs)) = map g' (filter P' xs)"
  by (induction xs) (auto simp: assms)

lemma batch_commit_chats:
  "batch_commit ops w = Inr w' \<Longrightarrow>
   \<forall>op \<in> set ops. is_delete op \<or> (\<exists>c. op = BatchArrayRemoveParticipant c u) \<Longrightarrow>
     chats w' =
       map (\<lambda>kv. if BatchArrayRemoveParticipant (fst kv) u \<in> set ops
                  then (fst kv, leave_chat u (snd kv)) else kv)
         (filter (\<lambda>kv. BatchDelete (ChatRef (fst kv)) \<notin> set ops) (chats w))"
proof (induction ops arbitrary: w)
  case Nil
  then show ?case by simp
next
  case (Cons op ops)
  then obtain w1 where a: "apply_write op w = Inr w1" and b: "batch_commit ops w1 = Inr w'"
    by (auto split: sum.splits)
  from Cons.prems(2) have rest: "\<forall>op \<in> set ops. is_delete op \<or> (\<exists>c. op = BatchArrayRemoveParticipant c u)"
    by simp
  from Cons.prems(2) consider r where "op = BatchDelete r" | c where "op = BatchArrayRemoveParticipant c u"
    by (auto simp: is_delete_def split: write_op.splits)
  then show ?case
  proof cases
    case 1
    with a have "chats w1 = filter (\<lambda>kv. ChatRef (fst kv) \<noteq> r) (chats w)"
      by (simp add: apply_write_chats_delete)
    with 1 show ?thesis
      unfolding Cons.IH [OF b rest]
      by (auto intro!: arg_cong2 [where f = map] filter_cong)
  next
    case 2
    with a have c1: "chats w1 = doc_modify c (leave_chat u) (chats w)"
      by (simp add: apply_write_chats_remove)
    show ?thesis
      unfolding Cons.IH [OF b rest] c1 2 doc_modify_def
      by (rule map_filter_map) (auto simp: leave_chat_idem)
  qed
qed

lemma purge_batch_set:
  "set (purge_batch u w) =
     {BatchDelete (UserRef u)}
     \<union> (\<lambda>kv. BatchDelete (PostRef (fst kv))) ` {kv \<in> set (posts w). p_userId (snd kv) = u}
     \<union> (\<lambda>kv. BatchDelete (CommentRef (fst (fst kv)) (snd (fst kv))))
          ` {kv \<in> set (comments w). c_userId (snd kv) = u}
     \<union> (\<lambda>kv. if length (participants (snd kv)) = 1
                then BatchDelete (ChatRef (fst kv))
                else BatchArrayRemoveParticipant (fst kv) u)
          ` {kv \<in> set (chats w). u \<in> set (participants (snd kv))}
     \<union> (\<lambda>x. BatchDelete (FollowingRef (fst x) (snd x))) ` {x \<in> set (following w). fst x = u}
     \<union> (\<lambda>x. BatchDelete (FollowerRef (fst x) (snd x))) ` {x \<in> set (followers w). fst x = u}
     \<union> (\<lambda>kv. BatchDelete (TransactionRef (fst (fst kv)) (snd (fst kv))))
          ` {kv \<in> set (transactions w). fst (fst kv) = u}"
  unfolding purge_batch_def by (simp add: Un_assoc)

lemma purge_batch_shape:
  "\<forall>op \<in> set (purge_batch u w). is_delete op \<or> (\<exists>c. op = BatchArrayRemoveParticipant c u)"
  unfolding purge_batch_set by (auto simp: is_delete_def)

lemma purge_batch_shape':
  "\<forall>op \<in> set (purge_batch u w). is_delete op \<or> (\<exists>c v. op = BatchArrayRemoveParticipant c v)"
  using purge_batch_shape [of u w] by blast

lemma purge_batch_user: "BatchDelete (UserRef x) \<in> set (purge_batch u w) \<longleftrightarrow> x = u"
  unfolding purge_batch_set by (auto split: if_splits)

lemma purge_batch_post:
  "BatchDelete (PostRef p) \<in> set (purge_batch u w) \<longleftrightarrow>
     (\<exists>kv \<in> set (posts w). fst kv = p \<and> p_userId (snd kv) = u)"
  unfolding purge_batch_set by (auto split: if_splits)

lemma purge_batch_comment:
  "BatchDelete (CommentRef p c) \<in> set (purge_batch u w) \<longleftrightarrow>
     (\<exists>kv \<in> set (comments w). fst kv = (p, c) \<and> c_userId (snd kv) = u)"
  unfolding purge_batch_set by (force simp: image_iff split: if_splits)

lemma purge_batch_transaction:
  "BatchDelete (TransactionRef a t) \<in> set (purge_batch u w) \<longleftrightarrow>
     (a = u \<and> (\<exists>kv \<in> set (transactions w). fst kv = (a, t)))"
  unfolding purge_batch_set by (force simp: image_iff split: if_splits)

lemma purge_batch_following:
  "BatchDelete (FollowingRef a b) \<in> set (purge_batch u w) \<longleftrightarrow>
     (a = u \<and> (a, b) \<in> set (following w))"
  unfolding purge_batch_set by (force simp: image_iff split: if_splits)

lemma purge_batch_follower:
  "BatchDelete (FollowerRef a b) \<in> set (purge_batch u w) \<longleftrightarrow>
     (a = u \<and> (a, b) \<in> set (followers w))"
  unfolding purge_batch_set by (force simp: image_iff split: if_splits)

lemma purge_batch_chat_delete:
  "BatchDelete (ChatRef c) \<in> set (purge_batch u w) \<longleftrightarrow>
     (\<exists>kv \<in> set (chats w). fst kv = c \<and> u \<in> set (participants (snd kv))
        \<and> length (participants (snd kv)) = 1)"
  unfolding purge_batch_set by (auto split: if_splits)

lemma purge_batch_chat_remove:
  "BatchArrayRemoveParticipant c v \<in> set (purge_batch u w) \<longleftrightarrow>
     (v = u \<and> (\<exists>kv \<in> set (chats w). fst kv = c \<and> u \<in> set (participants (snd kv))
        \<and> length (participants (snd kv)) \<noteq> 1))"
  unfolding purge_batch_set by (auto split: if_splits)

lemma deleteUserAccount_success:
  assumes "fst (deleteUserAccount e dat (Some u) w) = Inr True"
  shows "\<exists>w1. batch_commit (purge_batch u w) w = Inr w1
           \<and> snd (deleteUserAccount e dat (Some u) w) =
               w1\<lparr>files := filter (\<lambda>f. \<not> starts_with (storage_prefix u) f) (files w1),
                  credentials := removeAll u (credentials w1),
                  console := console w1 @ [Log ''User account successfully deleted'']\<rparr>
           \<and> u \<in> set (credentials w1)"
proof (cases "batch_commit (purge_batch u w) w")
  case (Inl err)
  with assms show ?thesis
    by (simp add: deleteUserAccount_def Let_def split: if_splits)
next
  case (Inr w1)
  with assms show ?thesis
    by (simp add: deleteUserAccount_def Let_def log_line_def split: if_splits)
qed

lemma doc_get_filter_other:
  "doc_get (filter (\<lambda>kv. fst kv \<noteq> u) c) v = (if v = u then None else doc_get c v)"
  unfolding doc_get_def by (induction c) auto

lemma purge_users:
  assumes "batch_commit (purge_batch u w) w = Inr w1"
  shows "users w1 = filter (\<lambda>kv. fst kv \<noteq> u) (users w)"
  using batch_commit_users [OF assms purge_batch_shape']
  by (simp add: purge_batch_user)

lemma deleteUserAccount_world:
  "\<exists>w1 fl cr cl. (w1 = w \<or> batch_commit (purge_batch u w) w = Inr w1)
      \<and> snd (deleteUserAccount e dat (Some u) w) = w1\<lparr>files := fl, credentials := cr, console := cl\<rparr>
      \<and> (cr = credentials w1 \<or> cr = removeAll u (credentials w1))"
proof (cases "batch_commit (purge_batch u w) w")
  case (Inl err)
  have "snd (deleteUserAccount e dat (Some u) w) =
          w\<lparr>files := files w, credentials := credentials w,
            console := console w @ [LogError ''Error deleting user account:'']\<rparr>"
    using Inl by (simp add: deleteUserAccount_def Let_def log_error_def)
  then show ?thesis by blast
next
  case (Inr w1)
  let ?r = "snd (deleteUserAccount e dat (Some u) w)"
  have "?r = w\<lparr>files := files w, credentials := credentials w,
            console := console w @ [LogError ''Error deleting user account:'']\<rparr>
        \<or> ?r = w1\<lparr>files := files w1, credentials := credentials w1,
            console := console w1 @ [LogError ''Error deleting user account:'']\<rparr>
        \<or> ?r = w1\<lparr>files := filter (\<lambda>f. \<not> starts_with (storage_prefix u) f) (files w1),
            credentials := credentials w1,
            console := console w1 @ [LogError ''Error deleting user account:'']\<rparr>
        \<or> ?r = w1\<lparr>files := filter (\<lambda>f. \<not> starts_with (storage_prefix u) f) (files w1),
            credentials := removeAll u (credentials w1),
            console := console w1 @ [Log ''User account successfully deleted'']\<rparr>"
    using Inr by (simp add: deleteUserAccount_def Let_def log_error_def log_line_def)
  then show ?thesis using Inr by blast
qed

lemma deleteUserAccount_result:
  "fst (deleteUserAccount e dat (Some u) w) = Inr True
   \<or> fst (deleteUserAccount e dat (Some u) w) = Inl Internal"
  by (cases "batch_commit (purge_batch u w) w")
     (simp_all add: deleteUserAccount_def Let_def)

lemma deleteUserAccount_failure:
  assumes "fail_at e = Some n" and "n \<le> 8"
  shows "fst (deleteUserAccount e dat (Some u) w) = Inl Internal"
proof (cases "n \<le> 6")
  case True
  have "fails e 0 \<or> fails e 1 \<or> fails e 2 \<or> fails e 3 \<or> fails e 4 \<or> fails e 5 \<or> fails e 6"
    using True assms(1) by (simp add: fails_def) arith
  then show ?thesis
    by (simp add: deleteUserAccount_def Let_def)
next
  case False
  with assms(2) have late: "n = 7 \<or> n = 8" by arith
  show ?thesis
  proof (cases "batch_commit (purge_batch u w) w")
    case (Inl err)
    then show ?thesis by (simp add: deleteUserAccount_def Let_def)
  next
    case (Inr w1)
    with late assms(1) show ?thesis
      by (auto simp: deleteUserAccount_def Let_def fails_def)
  qed
qed

lemma deleteUserAccount_other_users:
  assumes "v \<noteq> u"
  shows "doc_get (users (snd (deleteUserAccount e dat (Some u) w))) v = doc_get (users w) v
     \<and> (v \<in> set (credentials (snd (deleteUserAccount e dat (Some u) w)))
          \<longleftrightarrow> v \<in> set (credentials w))"
proof -
  from deleteUserAccount_world [where u = u and w = w and e = e and dat = dat] obtain w1 fl cr cl where
    a: "w1 = w \<or> batch_commit (purge_batch u w) w = Inr w1"
    and b: "snd (deleteUserAccount e dat (Some u) w) = w1\<lparr>files := fl, credentials := cr, console := cl\<rparr>"
    and c: "cr = credentials w1 \<or> cr = removeAll u (credentials w1)"
    by blast
  from a have u1: "doc_get (users w1) v = doc_get (users w) v"
    using assms by (auto simp: purge_users doc_get_filter_other)
  from a have c1: "credentials w1 = credentials w"
    using batch_commit_fixed by blast
  from c c1 assms have "v \<in> set cr \<longleftrightarrow> v \<in> set (credentials w)" by auto
  with u1 show ?thesis by (simp add: b)
qed

lemma purge_world_batch:
  "purge_batch ''alice'' purge_world =
     [BatchDelete (UserRef ''alice''), BatchDelete (PostRef ''p1''),
      BatchDelete (CommentRef ''p2'' ''c1''),
      BatchArrayRemoveParticipant ''alice_bob'' ''alice'', BatchDelete (ChatRef ''alice_only''),
      BatchDelete (FollowingRef ''alice'' ''bob''), BatchDelete (FollowerRef ''alice'' ''bob''),
      BatchDelete (TransactionRef ''alice'' ''t1'')]"
  by (simp add: purge_batch_def purge_world_def empty_world_def)

lemma purge_world_commit:
  "batch_commit (purge_batch ''alice'' purge_world) purge_world =
     Inr (purge_world\<lparr>
       users := [(''bob'', sample_user)],
       followers := [(''bob'', ''alice'')],
       following := [(''bob'', ''alice'')],
       transactions := [],
       posts := [(''p2'', \<lparr> p_userId = ''bob'', p_content = ''world'' \<rparr>)],
       comments := [((''p1'', ''c2''), \<lparr> c_userId = ''bob'', c_content = ''thanks'' \<rparr>)],
       chats := [(''alice_bob'', \<lparr> participants = [''bob''], lastMessage = ''hi'' \<rparr>)] \<rparr>)"
  unfolding purge_world_batch
  by (simp add: apply_write_def delete_ref_def doc_delete_def doc_update_def doc_modify_def
        fv_arrayRemove_def purge_world_def empty_world_def)

lemma purge_world_success:
  "fst (deleteUserAccount ok_env () (Some ''alice'') purge_world) = Inr True"
  by (simp add: deleteUserAccount_def Let_def fails_def ok_env_def purge_world_commit
        log_line_def)
     (simp add: purge_world_def empty_world_def)

lemma distinct_key_unique:
  assumes "distinct (map fst xs)" and "(k, a) \<in> set xs" and "(k, b) \<in> set xs"
  shows "a = b"
proof -
  from map_of_is_SomeI [OF assms(1) assms(2)] map_of_is_SomeI [OF assms(1) assms(3)]
  show ?thesis by simp
qed

lemma doc_get_map_filter:
  assumes "distinct (map fst xs)" and "(c, d) \<in> set xs" and "\<And>kv. fst (g kv) = fst kv"
  shows "doc_get (map g (filter P xs)) c = (if P (c, d) then Some (snd (g (c, d))) else None)"
proof (cases "P (c, d)")
  case True
  have keys: "map fst (map g (filter P xs)) = map fst (filter P xs)"
    by (simp add: assms(3) comp_def)
  have dis: "distinct (map fst (map g (filter P xs)))"
    unfolding keys by (rule distinct_map_filter [OF assms(1)])
  have "fst (g (c, d)) = c" using assms(3) [of "(c, d)"] by simp
  then have eq: "g (c, d) = (c, snd (g (c, d)))" by (metis prod.collapse)
  have "g (c, d) \<in> set (map g (filter P xs))"
    using True assms(2) by simp
  with eq have "(c, snd (g (c, d))) \<in> set (map g (filter P xs))" by simp
  from map_of_is_SomeI [OF dis this] True show ?thesis by (simp add: doc_get_def)
next
  case False
  have "c \<notin> fst ` set (map g (filter P xs))"
  proof
    assume "c \<in> fst ` set (map g (filter P xs))"
    then obtain kv where kv: "kv \<in> set xs" "P kv" "fst (g kv) = c" by auto
    then have "fst kv = c" using assms(3) by simp
    with kv(1) have "(c, snd kv) \<in> set xs" by (metis prod.collapse)
    from distinct_key_unique [OF assms(1) this assms(2)] \<open>fst kv = c\<close>
    have "kv = (c, d)" by (metis prod.collapse)
    with kv(2) False show False by simp
  qed
  then have "map_of (map g (filter P xs)) c = None"
    by (simp add: map_of_eq_None_iff)
  with False show ?thesis by (simp add: doc_get_def)
qed

lemma sole_participant:
  assumes "distinct ps" and "u \<in> set ps"
  shows "(set ps = {u}) = (length ps = 1)"
proof
  assume "set ps = {u}"
  then have "card (set ps) = 1" by simp
  with assms(1) show "length ps = 1" by (simp add: distinct_card)
next
  assume "length ps = 1"
  then obtain x where "ps = [x]" by (cases ps) auto
  with assms(2) show "set ps = {u}" by simp
qed

text \<open>
  Claim C7. After a successful purge of \<open>u\<close>, a chat in which \<open>u\<close> took part
  (chat ids unique, the participants a set) is gone when \<open>u\<close> was its only participant;
  otherwise it is still there with \<open>u\<close> removed from the participants and nothing else
  changed. No message is touched.
\<close>

theorem purge_chats:
  assumes "fst (deleteUserAccount e dat (Some u) w) = Inr True"
    and "distinct (map fst (chats w))"
    and "(c, d) \<in> set (chats w)"
    and "u \<in> set (participants d)"
    and "distinct (participants d)"
  shows "(set (participants d) = {u} \<longrightarrow>
            doc_get (chats (snd (deleteUserAccount e dat (Some u) w))) c = None)
       \<and> (set (participants d) \<noteq> {u} \<longrightarrow>
            doc_get (chats (snd (deleteUserAccount e dat (Some u) w))) c =
              Some (d\<lparr>participants := removeAll u (participants d)\<rparr>))
       \<and> messages (snd (deleteUserAccount e dat (Some u) w)) = messages w"
proof -
  from deleteUserAccount_success [OF assms(1)] obtain w1 where
    commit: "batch_commit (purge_batch u w) w = Inr w1"
    and res: "snd (deleteUserAccount e dat (Some u) w) =
               w1\<lparr>files := filter (\<lambda>f. \<not> starts_with (storage_prefix u) f) (files w1),
                  credentials := removeAll u (credentials w1),
                  console := console w1 @ [Log ''User account successfully deleted'']\<rparr>"
    by blast
  let ?g = "\<lambda>kv. if BatchArrayRemoveParticipant (fst kv) u \<in> set (purge_batch u w)
                  then (fst kv, leave_chat u (snd kv)) else kv"
  let ?P = "\<lambda>kv. BatchDelete (ChatRef (fst kv)) \<notin> set (purge_batch u w)"
  have chats1: "chats w1 = map ?g (filter ?P (chats w))"
    by (rule batch_commit_chats [OF commit purge_batch_shape])
  have uniq: "\<And>kv. kv \<in> set (chats w) \<Longrightarrow> fst kv = c \<Longrightarrow> snd kv = d"
  proof -
    fix kv assume "kv \<in> set (chats w)" and "fst kv = c"
    then have "(c, snd kv) \<in> set (chats w)" by (metis prod.collapse)
    from distinct_key_unique [OF assms(2) this assms(3)] show "snd kv = d" .
  qed
  have del: "BatchDelete (ChatRef c) \<in> set (purge_batch u w) \<longleftrightarrow> length (participants d) = 1"
  proof
    assume "BatchDelete (ChatRef c) \<in> set (purge_batch u w)"
    then obtain kv where "kv \<in> set (chats w)" "fst kv = c"
      "length (participants (snd kv)) = 1"
      unfolding purge_batch_chat_delete by blast
    with uniq show "length (participants d) = 1" by simp
  next
    assume "length (participants d) = 1"
    with assms(3,4) show "BatchDelete (ChatRef c) \<in> set (purge_batch u w)"
      unfolding purge_batch_chat_delete by force
  qed
  have rem: "BatchArrayRemoveParticipant c u \<in> set (purge_batch u w)
               \<longleftrightarrow> length (participants d) \<noteq> 1"
  proof
    assume "BatchArrayRemoveParticipant c u \<in> set (purge_batch u w)"
    then obtain kv where "kv \<in> set (chats w)" "fst kv = c"
      "length (participants (snd kv)) \<noteq> 1"
      unfolding purge_batch_chat_remove by blast
    with uniq show "length (participants d) \<noteq> 1" by simp
  next
    assume "length (participants d) \<noteq> 1"
    with assms(3,4) show "BatchArrayRemoveParticipant c u \<in> set (purge_batch u w)"
      unfolding purge_batch_chat_remove by force
  qed
  have get: "doc_get (chats w1) c = (if ?P (c, d) then Some (snd (?g (c, d))) else None)"
    unfolding chats1
    by (rule doc_get_map_filter [OF assms(2) assms(3)]) simp
  have sole: "(set (participants d) = {u}) = (length (participants d) = 1)"
    by (rule sole_participant [OF assms(5) assms(4)])
  have a: "set (participants d) = {u} \<longrightarrow> doc_get (chats w1) c = None"
    using get del sole by simp
  have b: "set (participants d) \<noteq> {u} \<longrightarrow>
             doc_get (chats w1) c = Some (d\<lparr>participants := removeAll u (participants d)\<rparr>)"
    using get del rem sole
    by (simp add: leave_chat_def fv_arrayRemove_def removeAll_filter)
  have m: "messages w1 = messages w"
    using batch_commit_fixed [OF commit] by simp
  from a b m show ?thesis by (simp add: res)
qed

theorem purge_chats_witness:
  "doc_get (chats (snd (deleteUserAccount ok_env () (Some ''alice'') purge_world))) ''alice_only''
     = None
   \<and> doc_get (chats (snd (deleteUserAccount ok_env () (Some ''alice'') purge_world))) ''alice_bob''
     = Some \<lparr> participants = [''bob''], lastMessage = ''hi'' \<rparr>
   \<and> messages (snd (deleteUserAccount ok_env () (Some ''alice'') purge_world))
     = messages purge_world"
proof -
  have d: "distinct (map fst (chats purge_world))"
    by (simp add: purge_world_def empty_world_def)
  have m1: "(''alice_only'', \<lparr> participants = [''alice''], lastMessage = ''memo'' \<rparr>)
              \<in> set (chats purge_world)"
    by (simp add: purge_world_def empty_world_def)
  have m2: "(''alice_bob'', \<lparr> participants = [''alice'', ''bob''], lastMessage = ''hi'' \<rparr>)
              \<in> set (chats purge_world)"
    by (simp add: purge_world_def empty_world_def)
  have p1: "''alice'' \<in> set (participants \<lparr> participants = [''alice''], lastMessage = ''memo'' \<rparr>)"
    by simp
  have p2: "''alice'' \<in> set (participants \<lparr> participants = [''alice'', ''bob''],
                                              lastMessage = ''hi'' \<rparr>)"
    by simp
  have q1: "distinct (participants \<lparr> participants = [''alice''], lastMessage = ''memo'' \<rparr>)"
    by simp
  have q2: "distinct (participants \<lparr> participants = [''alice'', ''bob''], lastMessage = ''hi'' \<rparr>)"
    by simp
  from purge_chats [OF purge_world_success d m1 p1 q1]
  have a: "doc_get (chats (snd (deleteUserAccount ok_env () (Some ''alice'') purge_world)))
             ''alice_only'' = None"
    and c: "messages (snd (deleteUserAccount ok_env () (Some ''alice'') purge_world))
              = messages purge_world"
    by simp_all
  from purge_chats [OF purge_world_success d m2 p2 q2]
  have b: "doc_get (chats (snd (deleteUserAccount ok_env () (Some ''alice'') purge_world)))
             ''alice_bob'' = Some \<lparr> participants = [''bob''], lastMessage = ''hi'' \<rparr>"
    by simp
  from a b c show ?thesis by blast
qed

text \<open>
  Claim C8. After a successful purge of \<open>u\<close> there is no user document of \<open>u\<close>, no
  post and no comment with \<open>userId\<close> \<open>u\<close>, no edge under \<open>u\<close>'s \<open>following\<close> or
  \<open>followers\<close>, no transaction of \<open>u\<close>, no file under \<open>users/u/\<close>, and no credential
  of \<open>u\<close>.
\<close>

theorem purge_leaves_nothing:
  assumes "fst (deleteUserAccount e dat (Some u) w) = Inr True"
  shows "doc_get (users (snd (deleteUserAccount e dat (Some u) w))) u = None
     \<and> (\<forall>kv \<in> set (posts (snd (deleteUserAccount e dat (Some u) w))). p_userId (snd kv) \<noteq> u)
     \<and> (\<forall>kv \<in> set (comments (snd (deleteUserAccount e dat (Some u) w))). c_userId (snd kv) \<noteq> u)
     \<and> (\<forall>x \<in> set (following (snd (deleteUserAccount e dat (Some u) w))). fst x \<noteq> u)
     \<and> (\<forall>x \<in> set (followers (snd (deleteUserAccount e dat (Some u) w))). fst x \<noteq> u)
     \<and> (\<forall>kv \<in> set (transactions (snd (deleteUserAccount e dat (Some u) w))). fst (fst kv) \<noteq> u)
     \<and> (\<forall>f \<in> set (files (snd (deleteUserAccount e dat (Some u) w))).
           \<not> starts_with (storage_prefix u) f)
     \<and> u \<notin> set (credentials (snd (deleteUserAccount e dat (Some u) w)))"
proof -
  from deleteUserAccount_success [OF assms] obtain w1 where
    commit: "batch_commit (purge_batch u w) w = Inr w1"
    and res: "snd (deleteUserAccount e dat (Some u) w) =
               w1\<lparr>files := filter (\<lambda>f. \<not> starts_with (storage_prefix u) f) (files w1),
                  credentials := removeAll u (credentials w1),
                  console := console w1 @ [Log ''User account successfully deleted'']\<rparr>"
    by blast
  have a: "doc_get (users w1) u = None"
    by (simp add: purge_users [OF commit] doc_get_filter_other)
  have b: "\<forall>kv \<in> set (posts w1). p_userId (snd kv) \<noteq> u"
    unfolding batch_commit_posts [OF commit] by (auto simp: purge_batch_post)
  have c: "\<forall>kv \<in> set (comments w1). c_userId (snd kv) \<noteq> u"
    unfolding batch_commit_comments [OF commit] by (auto simp: purge_batch_comment)
  have d: "\<forall>x \<in> set (following w1). fst x \<noteq> u"
    unfolding batch_commit_following [OF commit] by (auto simp: purge_batch_following)
  have e: "\<forall>x \<in> set (followers w1). fst x \<noteq> u"
    unfolding batch_commit_followers [OF commit] by (auto simp: purge_batch_follower)
  have f: "\<forall>kv \<in> set (transactions w1). fst (fst kv) \<noteq> u"
    unfolding batch_commit_transactions [OF commit] by (auto simp: purge_batch_transaction)
  from a b c d e f show ?thesis by (simp add: res)
qed

theorem purge_leaves_nothing_witness:
  "doc_get (users (snd (deleteUserAccount ok_env () (Some ''alice'') purge_world))) ''alice'' = None
   \<and> ''alice'' \<notin> set (credentials (snd (deleteUserAccount ok_env () (Some ''alice'') purge_world)))
   \<and> fst (deleteUserAccount ok_env () (Some ''alice'') purge_world) = Inr True"
  using purge_leaves_nothing [OF purge_world_success] purge_world_success by simp

text \<open>
  Claim C9. Without \<open>context.auth\<close> the call fails with \<open>unauthenticated\<close> and the
  world is untouched. With it, the request payload has no influence on the purge, the
  result is success or the generic \<open>internal\<close> error, it is \<open>internal\<close> whenever an
  awaited call rejects, and no other user's document or credential is removed.
\<close>

theorem deleteUserAccount_authentication:
  "deleteUserAccount e dat None w = (Inl Unauthenticated, w)
   \<and> deleteUserAccount e dat (Some u) w = deleteUserAccount e dat' (Some u) w
   \<and> (fst (deleteUserAccount e dat (Some u) w) = Inr True
        \<or> fst (deleteUserAccount e dat (Some u) w) = Inl Internal)
   \<and> ((\<exists>n \<le> 8. fail_at e = Some n) \<longrightarrow>
         fst (deleteUserAccount e dat (Some u) w) = Inl Internal)
   \<and> (\<forall>v. v \<noteq> u \<longrightarrow>
         doc_get (users (snd (deleteUserAccount e dat (Some u) w))) v = doc_get (users w) v
         \<and> (v \<in> set (credentials (snd (deleteUserAccount e dat (Some u) w)))
              \<longleftrightarrow> v \<in> set (credentials w)))"
proof -
  have a: "deleteUserAccount e dat None w = (Inl Unauthenticated, w)"
    by (simp add: deleteUserAccount_def)
  have b: "deleteUserAccount e dat (Some u) w = deleteUserAccount e dat' (Some u) w"
    by (simp add: deleteUserAccount_def)
  have r: "fst (deleteUserAccount e dat (Some u) w) = Inr True
        \<or> fst (deleteUserAccount e dat (Some u) w) = Inl Internal"
    by (rule deleteUserAccount_result)
  have d: "(\<exists>n \<le> 8. fail_at e = Some n) \<longrightarrow>
         fst (deleteUserAccount e dat (Some u) w) = Inl Internal"
  proof
    assume "\<exists>n \<le> 8. fail_at e = Some n"
    then obtain n where "fail_at e = Some n" and "n \<le> 8" by blast
    then show "fst (deleteUserAccount e dat (Some u) w) = Inl Internal"
      by (rule deleteUserAccount_failure)
  qed
  have o: "\<forall>v. v \<noteq> u \<longrightarrow>
         doc_get (users (snd (deleteUserAccount e dat (Some u) w))) v = doc_get (users w) v
         \<and> (v \<in> set (credentials (snd (deleteUserAccount e dat (Some u) w)))
              \<longleftrightarrow> v \<in> set (credentials w))"
  proof (intro allI impI)
    fix v :: uid
    assume "v \<noteq> u"
    then show "doc_get (users (snd (deleteUserAccount e dat (Some u) w))) v = doc_get (users w) v
         \<and> (v \<in> set (credentials (snd (deleteUserAccount e dat (Some u) w)))
              \<longleftrightarrow> v \<in> set (credentials w))"
      by (rule deleteUserAccount_other_users)
  qed
  show ?thesis
    by (intro conjI) (rule a, rule b, rule r, rule d, rule o)
qed

theorem deleteUserAccount_authentication_witness:
  "deleteUserAccount ok_env () None purge_world = (Inl Unauthenticated, purge_world)
   \<and> fst (deleteUserAccount (ok_env\<lparr>fail_at := Some 6\<rparr>) () (Some ''alice'') purge_world)
       = Inl Internal
   \<and> doc_get (users (snd (deleteUserAccount ok_env () (Some ''alice'') purge_world))) ''bob''
       = Some sample_user
   \<and> ''bob'' \<in> set (credentials (snd (deleteUserAccount ok_env () (Some ''alice'') purge_world)))"
proof -
  note t1 = deleteUserAccount_authentication
      [where e = ok_env and dat = "()" and w = purge_world and u = "''alice''" and dat' = "()"]
  note t2 = deleteUserAccount_authentication
      [where e = "ok_env\<lparr>fail_at := Some 6\<rparr>" and dat = "()" and w = purge_world
         and u = "''alice''" and dat' = "()"]
  from t1 have a: "deleteUserAccount ok_env () None purge_world = (Inl Unauthenticated, purge_world)"
    by (rule conjunct1)
  have ex: "\<exists>n \<le> 8. fail_at (ok_env\<lparr>fail_at := Some 6\<rparr>) = Some n" by simp
  from t2 have "(\<exists>n \<le> 8. fail_at (ok_env\<lparr>fail_at := Some 6\<rparr>) = Some n) \<longrightarrow>
      fst (deleteUserAccount (ok_env\<lparr>fail_at := Some 6\<rparr>) () (Some ''alice'') purge_world)
        = Inl Internal"
    by (elim conjE)
  with ex have b: "fst (deleteUserAccount (ok_env\<lparr>fail_at := Some 6\<rparr>) () (Some ''alice'')
                     purge_world) = Inl Internal"
    by (rule rev_mp)
  have ne: "''bob'' \<noteq> ''alice''" by simp
  from t1 have "\<forall>v. v \<noteq> ''alice'' \<longrightarrow>
         doc_get (users (snd (deleteUserAccount ok_env () (Some ''alice'') purge_world))) v
           = doc_get (users purge_world) v
         \<and> (v \<in> set (credentials (snd (deleteUserAccount ok_env () (Some ''alice'') purge_world)))
              \<longleftrightarrow> v \<in> set (credentials purge_world))"
    by (elim conjE)
  with ne have "doc_get (users (snd (deleteUserAccount ok_env () (Some ''alice'') purge_world)))
               ''bob'' = doc_get (users purge_world) ''bob''
     \<and> (''bob'' \<in> set (credentials (snd (deleteUserAccount ok_env () (Some ''alice'')
                                          purge_world)))
          \<longleftrightarrow> ''bob'' \<in> set (credentials purge_world))"
    by (elim allE [where x = "''bob''"] impE) assumption
  then have c: "doc_get (users (snd (deleteUserAccount ok_env () (Some ''alice'') purge_world)))
               ''bob'' = Some sample_user
     \<and> ''bob'' \<in> set (credentials (snd (deleteUserAccount ok_env () (Some ''alice'')
                                          purge_world)))"
    by (simp add: purge_world_def empty_world_def doc_get_def)
  from c have c1: "doc_get (users (snd (deleteUserAccount ok_env () (Some ''alice'')
                     purge_world))) ''bob'' = Some sample_user"
    by (rule conjunct1)
  from c have c2: "''bob'' \<in> set (credentials (snd (deleteUserAccount ok_env ()
                     (Some ''alice'') purge_world)))"
    by (rule conjunct2)
  show ?thesis
    by (intro conjI) (rule a, rule b, rule c1, rule c2)
qed

lemma checkFollowerReward_shape:
  "(\<exists>cl. checkFollowerReward e v w = w\<lparr>console := cl\<rparr>)
   \<or> (\<exists>d tx gw cl. doc_get (users w) v = Some d
         \<and> \<not> truthy_bool (rewardClaimed d)
         \<and> checkFollowerReward e v w =
             w\<lparr>users := doc_modify v credit_reward (users w),
               transactions := transactions w @ tx, gateway := gw, console := cl\<rparr>
         \<and> (tx = [] \<or> tx = [((v, auto_id e), reward_transaction (threshold_of (rewardRule w)))]))"
proof (cases "doc_get (users w) v")
  case None
  have "checkFollowerReward e v w = w\<lparr>console := console (checkFollowerReward e v w)\<rparr>"
    using None by (simp add: checkFollowerReward_def Let_def log_error_def log_line_def)
  then show ?thesis by blast
next
  case (Some d)
  show ?thesis
  proof (cases "fails e 0 \<or> fails e 1 \<or> \<not> reward_due d (threshold_of (rewardRule w)) \<or> fails e 2")
    case True
    have "checkFollowerReward e v w = w\<lparr>console := console (checkFollowerReward e v w)\<rparr>"
      using Some True
      by (auto simp: checkFollowerReward_def Let_def log_error_def log_line_def)
    then show ?thesis by blast
  next
    case False
    then have due: "reward_due d (threshold_of (rewardRule w))" by simp
    then have nc: "\<not> truthy_bool (rewardClaimed d)" by (simp add: reward_due_def)
    let ?r = "checkFollowerReward e v w"
    let ?tx = "if fails e 3 then []
               else [((v, auto_id e), reward_transaction (threshold_of (rewardRule w)))]"
    have "?r = w\<lparr>users := doc_modify v credit_reward (users w),
               transactions := transactions w @ ?tx, gateway := gateway ?r,
               console := console ?r\<rparr>"
      using Some False
      by (simp add: checkFollowerReward_def Let_def doc_update_Some sendPushNotification_eq
          log_error_def log_line_def)
    moreover have "?tx = [] \<or> ?tx = [((v, auto_id e), reward_transaction (threshold_of (rewardRule w)))]"
      by simp
    ultimately show ?thesis using Some nc by blast
  qed
qed

lemma checkFollowerReward_for_user:
  "unchanged_for u w (checkFollowerReward e v w)
   \<or> credited_once u w (checkFollowerReward e v w)"
proof -
  from checkFollowerReward_shape [of e v w]
  consider cl where "checkFollowerReward e v w = w\<lparr>console := cl\<rparr>"
    | d tx gw cl where "doc_get (users w) v = Some d" "\<not> truthy_bool (rewardClaimed d)"
        "checkFollowerReward e v w =
             w\<lparr>users := doc_modify v credit_reward (users w),
               transactions := transactions w @ tx, gateway := gw, console := cl\<rparr>"
        "tx = [] \<or> tx = [((v, auto_id e), reward_transaction (threshold_of (rewardRule w)))]"
    by blast
  then show ?thesis
  proof cases
    case 1
    then show ?thesis by (simp add: unchanged_for_def user_transactions_def)
  next
    case 2
    show ?thesis
    proof (cases "v = u")
      case True
      have "credited_once u w (checkFollowerReward e v w)"
        unfolding credited_once_def
        using 2 True
        by (auto simp: doc_get_doc_modify user_transactions_def reward_transaction_def)
      then show ?thesis ..
    next
      case False
      have "unchanged_for u w (checkFollowerReward e v w)"
        unfolding unchanged_for_def
        using 2 False
        by (auto simp: doc_get_doc_modify user_transactions_def)
      then show ?thesis ..
    qed
  qed
qed

lemma claimed_stays:
  assumes "doc_get (users w) u = Some d" and "truthy_bool (rewardClaimed d)"
  shows "unchanged_for u w (checkFollowerReward e v w)"
  using checkFollowerReward_for_user [of u w e v] assms
  by (auto simp: credited_once_def)

lemma run_sequential_for_user:
  "unchanged_for u w (run_sequential invs w) \<or> credited_once u w (run_sequential invs w)"
proof (induction invs arbitrary: w)
  case Nil
  then show ?case by (simp add: unchanged_for_def)
next
  case (Cons inv invs)
  obtain e v where inv: "inv = (e, v)" by (cases inv)
  let ?w1 = "checkFollowerReward e v w"
  let ?w2 = "run_sequential invs ?w1"
  have run: "run_sequential (inv # invs) w = ?w2" by (simp add: inv)
  from checkFollowerReward_for_user [of u w e v] show ?case
  proof
    assume same: "unchanged_for u w ?w1"
    from Cons.IH [of ?w1] show ?thesis
      unfolding run using same
      by (auto simp: unchanged_for_def credited_once_def)
  next
    assume cr: "credited_once u w ?w1"
    then obtain d tx where d: "doc_get (users w) u = Some d" "\<not> truthy_bool (rewardClaimed d)"
      "doc_get (users ?w1) u = Some (credit_reward d)"
      "user_transactions ?w1 u = user_transactions w u @ tx" "length tx \<le> 1"
      "list_all (\<lambda>kv. t_type (snd kv) = ''reward'') tx"
      unfolding credited_once_def by blast
    have claimed: "truthy_bool (rewardClaimed (credit_reward d))"
      by (simp add: credit_reward_def truthy_bool_def)
    from Cons.IH [of ?w1] have "unchanged_for u ?w1 ?w2"
      using d(3) claimed by (auto simp: credited_once_def)
    then have "credited_once u w ?w2"
      using d unfolding credited_once_def unchanged_for_def by auto
    then show ?thesis unfolding run ..
  qed
qed

text \<open>
  Claim C1, as amended. Whatever deliveries of \<open>checkFollowerReward\<close> run one after
  another (for any users, with any failures), for every user \<open>u\<close> either the document
  and the transactions of \<open>u\<close> end as they began, or \<open>u\<close> was unclaimed, is credited
  1000 exactly once with \<open>rewardClaimed\<close> set, and gained at most one transaction, of type
  reward. When \<open>rewardClaimed\<close> is already true, the document and the transactions of
  \<open>u\<close> do not change.
\<close>

theorem reward_at_most_once_sequential:
  "(doc_get (users (run_sequential invs w)) u = doc_get (users w) u
      \<and> user_transactions (run_sequential invs w) u = user_transactions w u
    \<or> (\<exists>d tx. doc_get (users w) u = Some d \<and> \<not> truthy_bool (rewardClaimed d)
          \<and> doc_get (users (run_sequential invs w)) u =
              Some (d\<lparr>wallet_balance :=
                        Some ((case wallet_balance d of None \<Rightarrow> 0 | Some b \<Rightarrow> b) + 1000),
                      rewardClaimed := Some True\<rparr>)
          \<and> user_transactions (run_sequential invs w) u = user_transactions w u @ tx
          \<and> length tx \<le> 1 \<and> list_all (\<lambda>kv. t_type (snd kv) = ''reward'') tx))
   \<and> ((\<exists>d. doc_get (users w) u = Some d \<and> truthy_bool (rewardClaimed d)) \<longrightarrow>
         doc_get (users (run_sequential invs w)) u = doc_get (users w) u
         \<and> user_transactions (run_sequential invs w) u = user_transactions w u)"
proof -
  have cr: "credit_reward = (\<lambda>d. d\<lparr>wallet_balance :=
                        Some ((case wallet_balance d of None \<Rightarrow> 0 | Some b \<Rightarrow> b) + 1000),
                      rewardClaimed := Some True\<rparr>)"
    by (rule ext) (simp add: credit_reward_def fv_increment_def rewardAmount_const_def)
  from run_sequential_for_user [of u w invs]
  show ?thesis
    unfolding unchanged_for_def credited_once_def cr by auto
qed

text \<open>Run without interruption, the step machine is the handler.\<close>

lemma steps_agree:
  "interleave [0, 0, 0, 0, 0] [(e, u, AtGetUser)] w
     = ([(e, u, Finished)], checkFollowerReward e u w)"
proof (cases "doc_get (users w) u")
  case None
  then show ?thesis
    by (simp add: reward_step_def checkFollowerReward_def Let_def)
next
  case (Some d)
  show ?thesis
  proof (cases "reward_due d (threshold_of (rewardRule w))")
    case False
    with Some show ?thesis
      by (simp add: reward_step_def checkFollowerReward_def Let_def)
  next
    case True
    have upd: "doc_update u credit_reward (users w) = Inr (doc_modify u credit_reward (users w))"
      by (rule doc_update_Some [OF Some])
    from Some True show ?thesis
      by (simp add: reward_step_def checkFollowerReward_def Let_def upd
          sendPushNotification_eq)
  qed
qed

text \<open>
  Claim C1 as stated fails for concurrent deliveries. Two invocations for bob (5000
  followers, unclaimed) whose awaited calls alternate both read \<open>rewardClaimed\<close> unset,
  both credit 1000 and both add a transaction.
\<close>

theorem reward_twice_when_interleaved_counterexample:
  "map_option wallet_balance (doc_get (users milestone_world) ''bob'') = Some (Some 0)
   \<and> map_option wallet_balance
       (doc_get (users (snd (interleave [0, 1, 0, 1, 0, 1, 0, 1, 0, 1] two_deliveries
                               milestone_world))) ''bob'') = Some (Some 2000)
   \<and> map (t_type \<circ> snd)
       (transactions (snd (interleave [0, 1, 0, 1, 0, 1, 0, 1, 0, 1] two_deliveries
                             milestone_world))) = [''reward'', ''reward'']"
  by (simp add: two_deliveries_def milestone_world_def empty_world_def reward_step_def Let_def
      fails_def ok_env_def doc_get_def doc_update_def doc_modify_def threshold_of_def
      reward_due_def js_ge_def currentFollowers_of_def truthy_bool_def truthy_string_def
      sample_user_def credit_reward_def fv_increment_def rewardAmount_const_def
      reward_transaction_def sendPushNotification_eq log_line_def)

lemma milestone_world_twice:
  "run_sequential [(ok_env, ''bob''), (ok_env\<lparr>auto_id := ''txn2''\<rparr>, ''bob'')] milestone_world =
     milestone_world\<lparr>
       users := [(''alice'', sample_user),
                 (''bob'', sample_user\<lparr>followersCount := Some 5000, wallet_balance := Some 1000,
                                       rewardClaimed := Some True\<rparr>)],
       transactions := [((''bob'', ''txn1''), reward_transaction (Some 5000))],
       gateway := [reward_message ''ExponentPushToken[abc]'' (Some 5000)],
       console := [Log ''Push notification sent:'', Log ''Reward awarded to user''] \<rparr>"
  by (simp add: checkFollowerReward_def Let_def milestone_world_def empty_world_def
      fails_def ok_env_def doc_get_def doc_update_def doc_modify_def threshold_of_def
      reward_due_def js_ge_def currentFollowers_of_def truthy_bool_def truthy_string_def
      sample_user_def credit_reward_def fv_increment_def rewardAmount_const_def
      sendPushNotification_eq log_line_def)

theorem reward_at_most_once_sequential_witness:
  "doc_get (users (run_sequential [(ok_env, ''bob''), (ok_env\<lparr>auto_id := ''txn2''\<rparr>, ''bob'')]
                     claimed_world)) ''bob''
     = doc_get (users claimed_world) ''bob''
   \<and> user_transactions (run_sequential [(ok_env, ''bob''), (ok_env\<lparr>auto_id := ''txn2''\<rparr>, ''bob'')]
                          claimed_world) ''bob''
     = user_transactions claimed_world ''bob''
   \<and> map_option wallet_balance
       (doc_get (users (run_sequential [(ok_env, ''bob''), (ok_env\<lparr>auto_id := ''txn2''\<rparr>, ''bob'')]
                          milestone_world)) ''bob'') = Some (Some 1000)
   \<and> length (user_transactions
               (run_sequential [(ok_env, ''bob''), (ok_env\<lparr>auto_id := ''txn2''\<rparr>, ''bob'')]
                  milestone_world) ''bob'') = 1"
proof -
  have "\<exists>d. doc_get (users claimed_world) ''bob'' = Some d \<and> truthy_bool (rewardClaimed d)"
    by (simp add: claimed_world_def empty_world_def doc_get_def truthy_bool_def)
  with reward_at_most_once_sequential
         [of "[(ok_env, ''bob''), (ok_env\<lparr>auto_id := ''txn2''\<rparr>, ''bob'')]" claimed_world "''bob''"]
  have a: "doc_get (users (run_sequential [(ok_env, ''bob''), (ok_env\<lparr>auto_id := ''txn2''\<rparr>, ''bob'')]
                     claimed_world)) ''bob''
     = doc_get (users claimed_world) ''bob''
   \<and> user_transactions (run_sequential [(ok_env, ''bob''), (ok_env\<lparr>auto_id := ''txn2''\<rparr>, ''bob'')]
                          claimed_world) ''bob''
     = user_transactions claimed_world ''bob''"
    by blast
  have b: "map_option wallet_balance
       (doc_get (users (run_sequential [(ok_env, ''bob''), (ok_env\<lparr>auto_id := ''txn2''\<rparr>, ''bob'')]
                          milestone_world)) ''bob'') = Some (Some 1000)
   \<and> length (user_transactions
               (run_sequential [(ok_env, ''bob''), (ok_env\<lparr>auto_id := ''txn2''\<rparr>, ''bob'')]
                  milestone_world) ''bob'') = 1"
    unfolding milestone_world_twice
    by (simp add: doc_get_def user_transactions_def milestone_world_def empty_world_def
        sample_user_def)
  from a b show ?thesis by simp
qed

text \<open>
  Claim C5, as amended. The amount credited to \<open>wallet.balance\<close> and recorded in the
  transaction is the constant 1000, whatever \<open>rewardAmount\<close> the record
  \<open>settings/rewardRule\<close> holds; only \<open>followerThreshold\<close> is read from it.
\<close>

theorem reward_amount_constant:
  assumes "fail_at e = None"
    and "doc_get (users w) u = Some d"
    and "th \<le> currentFollowers_of d"
    and "\<not> truthy_bool (rewardClaimed d)"
  shows "map_option wallet_balance
           (doc_get (users (checkFollowerReward e u
               (w\<lparr>rewardRule := Some \<lparr> followerThreshold = Some th, rewardAmount = a \<rparr>\<rparr>))) u)
         = Some (Some ((case wallet_balance d of None \<Rightarrow> 0 | Some b \<Rightarrow> b) + 1000))
       \<and> (\<exists>txn. transactions (checkFollowerReward e u
               (w\<lparr>rewardRule := Some \<lparr> followerThreshold = Some th, rewardAmount = a \<rparr>\<rparr>))
                 = transactions w @ [((u, auto_id e), txn)]
               \<and> t_amount txn = 1000)"
proof -
  let ?w = "w\<lparr>rewardRule := Some \<lparr> followerThreshold = Some th, rewardAmount = a \<rparr>\<rparr>"
  have u: "doc_get (users ?w) u = Some d" using assms(2) by simp
  have due: "reward_due d (threshold_of (rewardRule ?w))"
    using assms(3,4) by (simp add: reward_due_def js_ge_def threshold_of_def)
  note eq = checkFollowerReward_issue [OF assms(1) u due]
  have a: "map_option wallet_balance (doc_get (users (checkFollowerReward e u ?w)) u)
         = Some (Some ((case wallet_balance d of None \<Rightarrow> 0 | Some b \<Rightarrow> b) + 1000))"
    using assms(2)
    by (simp add: eq Let_def doc_get_doc_modify credit_reward_def fv_increment_def
        rewardAmount_const_def)
  have b: "\<exists>txn. transactions (checkFollowerReward e u ?w)
                 = transactions w @ [((u, auto_id e), txn)] \<and> t_amount txn = 1000"
    by (simp add: eq Let_def reward_transaction_def rewardAmount_const_def)
  from a b show ?thesis by (rule conjI)
qed

lemma configured_world_reward:
  "checkFollowerReward ok_env ''bob'' configured_world =
     configured_world\<lparr>
       users := [(''alice'', sample_user),
                 (''bob'', sample_user\<lparr>followersCount := Some 5000, wallet_balance := Some 1000,
                                       rewardClaimed := Some True\<rparr>)],
       transactions := [((''bob'', ''txn1''), reward_transaction (Some 5000))],
       gateway := [reward_message ''ExponentPushToken[abc]'' (Some 5000)],
       console := [Log ''Push notification sent:'', Log ''Reward awarded to user''] \<rparr>"
proof -
  have h1: "fail_at ok_env = None" by (simp add: ok_env_def)
  have h2: "doc_get (users configured_world) ''bob''
              = Some (sample_user\<lparr>followersCount := Some 5000\<rparr>)"
    by (simp add: configured_world_def milestone_world_def empty_world_def doc_get_def)
  have h3: "reward_due (sample_user\<lparr>followersCount := Some 5000\<rparr>)
              (threshold_of (rewardRule configured_world))"
    by (simp add: configured_world_def milestone_world_def empty_world_def reward_due_def
        js_ge_def threshold_of_def currentFollowers_of_def truthy_bool_def sample_user_def)
  show ?thesis
    unfolding checkFollowerReward_issue [OF h1 h2 h3]
    by (simp add: Let_def configured_world_def milestone_world_def empty_world_def doc_modify_def
        credit_reward_def fv_increment_def rewardAmount_const_def sample_user_def
        truthy_string_def threshold_of_def ok_env_def)
qed

text \<open>
  Claim C5 as stated fails: with \<open>rewardAmount\<close> configured as 500 the user is credited
  1000 and the transaction records 1000.
\<close>

theorem reward_amount_constant_counterexample:
  "map_option rewardAmount (rewardRule configured_world) = Some (Some 500)
   \<and> map_option wallet_balance (doc_get (users configured_world) ''bob'') = Some (Some 0)
   \<and> map_option wallet_balance
        (doc_get (users (checkFollowerReward ok_env ''bob'' configured_world)) ''bob'')
       = Some (Some 1000)
   \<and> map (t_amount \<circ> snd) (transactions (checkFollowerReward ok_env ''bob'' configured_world))
       = [1000]"
  unfolding configured_world_reward
  by (simp add: configured_world_def milestone_world_def empty_world_def doc_get_def
      sample_user_def reward_transaction_def rewardAmount_const_def)

theorem reward_amount_constant_witness:
  "map_option wallet_balance
     (doc_get (users (checkFollowerReward ok_env ''bob''
        (milestone_world\<lparr>rewardRule :=
           Some \<lparr> followerThreshold = Some 5000, rewardAmount = Some 500 \<rparr>\<rparr>))) ''bob'')
     = Some (Some 1000)"
proof -
  have h1: "fail_at ok_env = None" by (simp add: ok_env_def)
  have h2: "doc_get (users milestone_world) ''bob''
              = Some (sample_user\<lparr>followersCount := Some 5000\<rparr>)"
    by (simp add: milestone_world_def empty_world_def doc_get_def)
  have h3: "5000 \<le> currentFollowers_of (sample_user\<lparr>followersCount := Some 5000\<rparr>)"
    by (simp add: currentFollowers_of_def)
  have h4: "\<not> truthy_bool (rewardClaimed (sample_user\<lparr>followersCount := Some 5000\<rparr>))"
    by (simp add: truthy_bool_def sample_user_def)
  from reward_amount_constant [OF h1 h2 h3 h4, of "Some 500"]
  show ?thesis by (simp add: sample_user_def)
qed

lemma two_users_follow:
  "handleFollow ok_env ''alice'' ''bob'' False False two_users_world =
     (False,
      two_users_world\<lparr>
        users := [(''alice'', sample_user\<lparr>followingCount := Some 1\<rparr>), (''bob'', sample_user)],
        followers := [(''bob'', ''alice'')],
        following := [(''alice'', ''bob'')],
        console := [LogError ''Error updating follow status:''] \<rparr>)"
  by (simp add: handleFollow_def Let_def fails_def ok_env_def rules_following_write_def
      rules_followers_write_def rules_user_write_def edge_set_def two_users_world_def
      empty_world_def doc_update_def doc_modify_def fv_increment_def sample_user_def
      log_error_def)

text \<open>
  Claim C4 does not hold of the code. alice follows bob once, from a world with no edge
  and all counters 0: the button itself adds 1 to alice's \<open>followingCount\<close> (its write to
  bob's document is denied by the rules), the trigger adds 1 to both counters, and alice
  ends with \<open>followingCount\<close> 2 for one \<open>following\<close> edge.
\<close>

theorem follow_counts_twice:
  "map_option followingCount
     (doc_get (users (snd (handleFollow ok_env ''alice'' ''bob'' False False two_users_world)))
        ''alice'') = Some (Some 1)
   \<and> map_option followingCount
     (doc_get (users (snd (follow_with_trigger ok_env ok_env ''alice'' ''bob'' False
                             two_users_world))) ''alice'') = Some (Some 2)
   \<and> following_edges (snd (follow_with_trigger ok_env ok_env ''alice'' ''bob'' False
                             two_users_world)) ''alice'' = 1
   \<and> map_option followersCount
     (doc_get (users (snd (follow_with_trigger ok_env ok_env ''alice'' ''bob'' False
                             two_users_world))) ''bob'') = Some (Some 1)
   \<and> followers_edges (snd (follow_with_trigger ok_env ok_env ''alice'' ''bob'' False
                             two_users_world)) ''bob'' = 1"
proof -
  have "follow_with_trigger ok_env ok_env ''alice'' ''bob'' False two_users_world =
     (False,
      two_users_world\<lparr>
        users := [(''alice'', sample_user\<lparr>followingCount := Some 2\<rparr>),
                  (''bob'', sample_user\<lparr>followersCount := Some 1\<rparr>)],
        followers := [(''bob'', ''alice'')],
        following := [(''alice'', ''bob'')],
        console := [LogError ''Error updating follow status:''] \<rparr>)"
    unfolding follow_with_trigger_def two_users_follow
    by (simp add: two_users_world_def empty_world_def updateFollowerCounts_def Let_def
        fails_def ok_env_def apply_write_def doc_update_def doc_modify_def fv_increment_def
        sample_user_def)
  then show ?thesis
    unfolding two_users_follow
    by (simp add: doc_get_def following_edges_def followers_edges_def
        two_users_world_def empty_world_def sample_user_def)
qed

end
